theory Spec2Isabelle
  imports Complex_Main
begin

section \<open>JavaScript numbers\<close>

text \<open>
  The module \<^verbatim>\<open>lib/geo\<close> computes on JavaScript numbers. A number is modelled as one
  of the three special values of IEEE 754 or a finite real. Arithmetic on finite values is
  exact real arithmetic: rounding, overflow of finite values and the sign of zero are not
  part of the model (the literal \<^verbatim>\<open>0.1\<close> is the real 1/10, \<^verbatim>\<open>Math.PI\<close> is \<open>pi\<close>). The
  special values follow ECMAScript: NaN propagates through every operation, every
  comparison with NaN is false, and the infinities behave as the limits they stand for.
  ECMAScript leaves the results of \<^verbatim>\<open>Math.sin\<close>, \<^verbatim>\<open>Math.cos\<close>, \<^verbatim>\<open>Math.asin\<close> and
  \<^verbatim>\<open>Math.atan2\<close> on finite arguments to the implementation, as approximations of the
  mathematical functions; the model takes the mathematical functions themselves.
\<close>

datatype number = NaN | PosInf | NegInf | Fin real

fun js_isFinite :: "number \<Rightarrow> bool" where
  "js_isFinite (Fin x) = True"
| "js_isFinite NaN = False"
| "js_isFinite PosInf = False"
| "js_isFinite NegInf = False"

fun js_isNaN :: "number \<Rightarrow> bool" where
  "js_isNaN NaN = True"
| "js_isNaN PosInf = False"
| "js_isNaN NegInf = False"
| "js_isNaN (Fin x) = False"

fun js_neg :: "number \<Rightarrow> number" where
  "js_neg NaN = NaN"
| "js_neg PosInf = NegInf"
| "js_neg NegInf = PosInf"
| "js_neg (Fin x) = Fin (- x)"

fun js_add :: "number \<Rightarrow> number \<Rightarrow> number" where
  "js_add NaN y = NaN"
| "js_add x NaN = NaN"
| "js_add PosInf NegInf = NaN"
| "js_add NegInf PosInf = NaN"
| "js_add PosInf y = PosInf"
| "js_add x PosInf = PosInf"
| "js_add NegInf y = NegInf"
| "js_add x NegInf = NegInf"
| "js_add (Fin x) (Fin y) = Fin (x + y)"

definition js_sub :: "number \<Rightarrow> number \<Rightarrow> number" where
  "js_sub x y = js_add x (js_neg y)"

text \<open>The sign of an infinite product or quotient: the infinity's sign times the sign of
  the finite operand; an infinity times zero is NaN.\<close>

fun signed_inf :: "bool \<Rightarrow> real \<Rightarrow> number" where
  "signed_inf positive y =
     (if y = 0 then NaN
      else if (0 < y) = positive then PosInf else NegInf)"

fun js_mul :: "number \<Rightarrow> number \<Rightarrow> number" where
  "js_mul NaN y = NaN"
| "js_mul x NaN = NaN"
| "js_mul PosInf PosInf = PosInf"
| "js_mul PosInf NegInf = NegInf"
| "js_mul NegInf PosInf = NegInf"
| "js_mul NegInf NegInf = PosInf"
| "js_mul PosInf (Fin y) = signed_inf True y"
| "js_mul NegInf (Fin y) = signed_inf False y"
| "js_mul (Fin x) PosInf = signed_inf True x"
| "js_mul (Fin x) NegInf = signed_inf False x"
| "js_mul (Fin x) (Fin y) = Fin (x * y)"

text \<open>Division: a finite value over an infinity is zero, a nonzero finite value over zero
  is an infinity (zero is taken as positive zero), zero over zero is NaN.\<close>

fun js_div :: "number \<Rightarrow> number \<Rightarrow> number" where
  "js_div NaN y = NaN"
| "js_div x NaN = NaN"
| "js_div PosInf PosInf = NaN"
| "js_div PosInf NegInf = NaN"
| "js_div NegInf PosInf = NaN"
| "js_div NegInf NegInf = NaN"
| "js_div PosInf (Fin y) = (if 0 \<le> y then PosInf else NegInf)"
| "js_div NegInf (Fin y) = (if 0 \<le> y then NegInf else PosInf)"
| "js_div (Fin x) PosInf = Fin 0"
| "js_div (Fin x) NegInf = Fin 0"
| "js_div (Fin x) (Fin y) =
     (if y = 0 then signed_inf True x else Fin (x / y))"

text \<open>\<^verbatim>\<open>x ** 2\<close>\<close>

fun js_sq :: "number \<Rightarrow> number" where
  "js_sq NaN = NaN"
| "js_sq PosInf = PosInf"
| "js_sq NegInf = PosInf"
| "js_sq (Fin x) = Fin (x\<^sup>2)"

text \<open>\<^verbatim>\<open>x <= y\<close>, \<^verbatim>\<open>x >= y\<close> and \<^verbatim>\<open>x == y\<close>: false as soon as one side is NaN.\<close>

fun js_le :: "number \<Rightarrow> number \<Rightarrow> bool" where
  "js_le NaN y = False"
| "js_le x NaN = False"
| "js_le NegInf y = True"
| "js_le x PosInf = True"
| "js_le PosInf y = False"
| "js_le x NegInf = False"
| "js_le (Fin x) (Fin y) = (x \<le> y)"

definition js_ge :: "number \<Rightarrow> number \<Rightarrow> bool" where
  "js_ge x y = js_le y x"

definition js_eq :: "number \<Rightarrow> number \<Rightarrow> bool" where
  "js_eq x y = (\<not> js_isNaN x \<and> x = y)"

text \<open>\<^verbatim>\<open>Math.max\<close> and \<^verbatim>\<open>Math.min\<close> return NaN when an argument is NaN.\<close>

definition js_max :: "number \<Rightarrow> number \<Rightarrow> number" where
  "js_max x y =
     (if js_isNaN x \<or> js_isNaN y then NaN else if js_le x y then y else x)"

definition js_min :: "number \<Rightarrow> number \<Rightarrow> number" where
  "js_min x y =
     (if js_isNaN x \<or> js_isNaN y then NaN else if js_le x y then x else y)"

text \<open>\<^verbatim>\<open>Math.sin\<close>, \<^verbatim>\<open>Math.cos\<close>: NaN on NaN and on the infinities.\<close>

fun js_sin :: "number \<Rightarrow> number" where
  "js_sin (Fin x) = Fin (sin x)"
| "js_sin NaN = NaN"
| "js_sin PosInf = NaN"
| "js_sin NegInf = NaN"

fun js_cos :: "number \<Rightarrow> number" where
  "js_cos (Fin x) = Fin (cos x)"
| "js_cos NaN = NaN"
| "js_cos PosInf = NaN"
| "js_cos NegInf = NaN"

text \<open>\<^verbatim>\<open>Math.asin\<close>: NaN outside [-1, 1].\<close>

fun js_asin :: "number \<Rightarrow> number" where
  "js_asin (Fin x) = (if x < - 1 \<or> 1 < x then NaN else Fin (arcsin x))"
| "js_asin NaN = NaN"
| "js_asin PosInf = NaN"
| "js_asin NegInf = NaN"

text \<open>\<^verbatim>\<open>Math.sqrt\<close>: NaN on a negative argument.\<close>

fun js_sqrt :: "number \<Rightarrow> number" where
  "js_sqrt (Fin x) = (if x < 0 then NaN else Fin (sqrt x))"
| "js_sqrt NaN = NaN"
| "js_sqrt PosInf = PosInf"
| "js_sqrt NegInf = NaN"

text \<open>\<^verbatim>\<open>Math.atan2(y, x)\<close>: the angle of the point (x, y), in (-pi, pi].\<close>

definition atan2_real :: "real \<Rightarrow> real \<Rightarrow> real" where
  "atan2_real y x =
     (if 0 < x then arctan (y / x)
      else if x < 0 then (if 0 \<le> y then arctan (y / x) + pi else arctan (y / x) - pi)
      else if 0 < y then pi / 2
      else if y < 0 then - (pi / 2)
      else 0)"

fun js_atan2 :: "number \<Rightarrow> number \<Rightarrow> number" where
  "js_atan2 NaN x = NaN"
| "js_atan2 y NaN = NaN"
| "js_atan2 (Fin y) (Fin x) = Fin (atan2_real y x)"
| "js_atan2 (Fin y) PosInf = Fin 0"
| "js_atan2 (Fin y) NegInf = (if 0 \<le> y then Fin pi else Fin (- pi))"
| "js_atan2 PosInf (Fin x) = Fin (pi / 2)"
| "js_atan2 NegInf (Fin x) = Fin (- (pi / 2))"
| "js_atan2 PosInf PosInf = Fin (pi / 4)"
| "js_atan2 PosInf NegInf = Fin (3 * pi / 4)"
| "js_atan2 NegInf PosInf = Fin (- (pi / 4))"
| "js_atan2 NegInf NegInf = Fin (- (3 * pi / 4))"

section \<open>The geo module\<close>

record GeoCoordinate =
  latitude :: number
  longitude :: number

record BoundingBox =
  minLatitude :: number
  maxLatitude :: number
  minLongitude :: number
  maxLongitude :: number

record BoundingBoxParams =
  center :: GeoCoordinate
  radiusKm :: number

record DistanceParams =
  origin :: GeoCoordinate
  destination :: GeoCoordinate

definition EARTH_RADIUS_KM :: number where
  "EARTH_RADIUS_KM = Fin 6371"

definition MIN_LATITUDE :: number where
  "MIN_LATITUDE = Fin (- 90)"

definition MAX_LATITUDE :: number where
  "MAX_LATITUDE = Fin 90"

definition MIN_LONGITUDE :: number where
  "MIN_LONGITUDE = Fin (- 180)"

definition MAX_LONGITUDE :: number where
  "MAX_LONGITUDE = Fin 180"

definition toRadians :: "number \<Rightarrow> number" where
  "toRadians v = js_div (js_mul v (Fin pi)) (Fin 180)"

definition toDegrees :: "number \<Rightarrow> number" where
  "toDegrees v = js_div (js_mul v (Fin 180)) (Fin pi)"

definition clampLatitude :: "number \<Rightarrow> number" where
  "clampLatitude v = js_min (js_max v MIN_LATITUDE) MAX_LATITUDE"

definition clampLongitude :: "number \<Rightarrow> number" where
  "clampLongitude v = js_min (js_max v MIN_LONGITUDE) MAX_LONGITUDE"

definition isLatitudeInRange :: "number \<Rightarrow> bool" where
  "isLatitudeInRange v \<longleftrightarrow>
     js_isFinite v \<and> js_ge v MIN_LATITUDE \<and> js_le v MAX_LATITUDE"

definition isLongitudeInRange :: "number \<Rightarrow> bool" where
  "isLongitudeInRange v \<longleftrightarrow>
     js_isFinite v \<and> js_ge v MIN_LONGITUDE \<and> js_le v MAX_LONGITUDE"

text \<open>The local constant \<^verbatim>\<open>a\<close> of \<^verbatim>\<open>calculateHaversineDistanceKm\<close>, computed after the
  range checks have passed.\<close>

definition haversine_a :: "DistanceParams \<Rightarrow> number" where
  "haversine_a p =
     (let dLat = toRadians (js_sub (latitude (destination p)) (latitude (origin p)));
          dLon = toRadians (js_sub (longitude (destination p)) (longitude (origin p)));
          originLat = toRadians (latitude (origin p));
          destinationLat = toRadians (latitude (destination p))
      in js_add (js_sq (js_sin (js_div dLat (Fin 2))))
           (js_mul (js_mul (js_sq (js_sin (js_div dLon (Fin 2)))) (js_cos originLat))
              (js_cos destinationLat)))"

definition calculateHaversineDistanceKm :: "DistanceParams \<Rightarrow> number" where
  "calculateHaversineDistanceKm p =
     (if \<not> isLatitudeInRange (latitude (origin p)) \<or>
         \<not> isLatitudeInRange (latitude (destination p)) \<or>
         \<not> isLongitudeInRange (longitude (origin p)) \<or>
         \<not> isLongitudeInRange (longitude (destination p))
      then NaN
      else
        let a = haversine_a p;
            c = js_mul (Fin 2) (js_atan2 (js_sqrt a) (js_sqrt (js_sub (Fin 1) a)))
        in js_mul EARTH_RADIUS_KM c)"

text \<open>The local constants \<^verbatim>\<open>angularDistance\<close>, \<^verbatim>\<open>minLatitude\<close>, \<^verbatim>\<open>maxLatitude\<close> and
  \<^verbatim>\<open>deltaLongitude\<close> of \<^verbatim>\<open>computeBoundingBox\<close>, computed after the check of the center
  has passed (the last one only outside the pole branch).\<close>

definition angularDistance :: "BoundingBoxParams \<Rightarrow> number" where
  "angularDistance p =
     (let safeRadiusKm = js_max (radiusKm p) (Fin (1 / 10))
      in js_div safeRadiusKm EARTH_RADIUS_KM)"

definition clampedMinLatitude :: "BoundingBoxParams \<Rightarrow> number" where
  "clampedMinLatitude p =
     (let latRad = toRadians (latitude (center p))
      in clampLatitude (toDegrees (js_sub latRad (angularDistance p))))"

definition clampedMaxLatitude :: "BoundingBoxParams \<Rightarrow> number" where
  "clampedMaxLatitude p =
     (let latRad = toRadians (latitude (center p))
      in clampLatitude (toDegrees (js_add latRad (angularDistance p))))"

definition deltaLongitude :: "BoundingBoxParams \<Rightarrow> number" where
  "deltaLongitude p =
     (let latRad = toRadians (latitude (center p))
      in js_asin (js_div (js_sin (angularDistance p)) (js_cos latRad)))"

definition computeBoundingBox :: "BoundingBoxParams \<Rightarrow> BoundingBox" where
  "computeBoundingBox p =
     (if \<not> isLatitudeInRange (latitude (center p)) \<or>
         \<not> isLongitudeInRange (longitude (center p))
      then \<lparr>minLatitude = MIN_LATITUDE, maxLatitude = MAX_LATITUDE,
            minLongitude = MIN_LONGITUDE, maxLongitude = MAX_LONGITUDE\<rparr>
      else
        let lonRad = toRadians (longitude (center p));
            minLat = clampedMinLatitude p;
            maxLat = clampedMaxLatitude p
        in if js_le minLat MIN_LATITUDE \<or> js_ge maxLat MAX_LATITUDE
           then \<lparr>minLatitude = minLat, maxLatitude = maxLat,
                 minLongitude = MIN_LONGITUDE, maxLongitude = MAX_LONGITUDE\<rparr>
           else
             let minLon = clampLongitude (toDegrees (js_sub lonRad (deltaLongitude p)));
                 maxLon = clampLongitude (toDegrees (js_add lonRad (deltaLongitude p)))
             in \<lparr>minLatitude = minLat, maxLatitude = maxLat,
                  minLongitude = minLon, maxLongitude = maxLon\<rparr>)"

section \<open>Binary64 arithmetic\<close>

text \<open>
  The exact model above decides the claims on which rounding has no bearing. For the
  others the distance function is modelled a second time, with every operation rounded
  as the platform rounds it: the exact result of \<^verbatim>\<open>+\<close>, \<^verbatim>\<open>-\<close>, \<^verbatim>\<open>*\<close>, \<^verbatim>\<open>/\<close>, \<^verbatim>\<open>** 2\<close> and of the
  \<^verbatim>\<open>Math\<close> functions is rounded to the nearest binary64 number, ties to even, with
  gradual underflow and overflow to infinity (IEEE 754). For the four basic operations
  this is what ECMAScript prescribes; for \<^verbatim>\<open>Math.sin\<close>, \<^verbatim>\<open>Math.cos\<close>, \<^verbatim>\<open>Math.sqrt\<close>,
  \<^verbatim>\<open>Math.atan2\<close> and \<^verbatim>\<open>**\<close> ECMAScript asks for an approximation only, and the model
  takes the correctly rounded value. \<^verbatim>\<open>Math.PI\<close> is the binary64 number nearest to \<open>pi\<close>.
\<close>

definition roundeven :: "real \<Rightarrow> int" where
  "roundeven x =
     (let f = \<lfloor>x\<rfloor>; d = x - of_int f
      in if d < 1 / 2 then f else if 1 / 2 < d then f + 1 else if even f then f else f + 1)"

definition rnd64 :: "real \<Rightarrow> number" where
  "rnd64 x =
     (if x = 0 then Fin 0
      else
        let e = max (\<lfloor>log 2 \<bar>x\<bar>\<rfloor> - 52) (- 1074);
            r = of_int (roundeven (x / 2 powi e)) * 2 powi e
        in if 2 ^ 1024 \<le> \<bar>r\<bar> then (if 0 < x then PosInf else NegInf) else Fin r)"

fun f64 :: "number \<Rightarrow> number" where
  "f64 (Fin x) = rnd64 x"
| "f64 NaN = NaN"
| "f64 PosInf = PosInf"
| "f64 NegInf = NegInf"

definition PI64 :: real where
  "PI64 = 884279719003555 / 2 ^ 48"

definition b64_add :: "number \<Rightarrow> number \<Rightarrow> number" where
  "b64_add x y = f64 (js_add x y)"

definition b64_sub :: "number \<Rightarrow> number \<Rightarrow> number" where
  "b64_sub x y = f64 (js_sub x y)"

definition b64_mul :: "number \<Rightarrow> number \<Rightarrow> number" where
  "b64_mul x y = f64 (js_mul x y)"

definition b64_div :: "number \<Rightarrow> number \<Rightarrow> number" where
  "b64_div x y = f64 (js_div x y)"

definition b64_sq :: "number \<Rightarrow> number" where
  "b64_sq x = f64 (js_sq x)"

definition b64_sin :: "number \<Rightarrow> number" where
  "b64_sin x = f64 (js_sin x)"

definition b64_cos :: "number \<Rightarrow> number" where
  "b64_cos x = f64 (js_cos x)"

definition b64_sqrt :: "number \<Rightarrow> number" where
  "b64_sqrt x = f64 (js_sqrt x)"

definition b64_atan2 :: "number \<Rightarrow> number \<Rightarrow> number" where
  "b64_atan2 y x = f64 (js_atan2 y x)"

definition toRadians64 :: "number \<Rightarrow> number" where
  "toRadians64 v = b64_div (b64_mul v (Fin PI64)) (Fin 180)"

definition haversine_a64 :: "DistanceParams \<Rightarrow> number" where
  "haversine_a64 p =
     (let dLat = toRadians64 (b64_sub (latitude (destination p)) (latitude (origin p)));
          dLon = toRadians64 (b64_sub (longitude (destination p)) (longitude (origin p)));
          originLat = toRadians64 (latitude (origin p));
          destinationLat = toRadians64 (latitude (destination p))
      in b64_add (b64_sq (b64_sin (b64_div dLat (Fin 2))))
           (b64_mul (b64_mul (b64_sq (b64_sin (b64_div dLon (Fin 2)))) (b64_cos originLat))
              (b64_cos destinationLat)))"

definition calculateHaversineDistanceKm64 :: "DistanceParams \<Rightarrow> number" where
  "calculateHaversineDistanceKm64 p =
     (if \<not> isLatitudeInRange (latitude (origin p)) \<or>
         \<not> isLatitudeInRange (latitude (destination p)) \<or>
         \<not> isLongitudeInRange (longitude (origin p)) \<or>
         \<not> isLongitudeInRange (longitude (destination p))
      then NaN
      else
        let a = haversine_a64 p;
            c = b64_mul (Fin 2) (b64_atan2 (b64_sqrt a) (b64_sqrt (b64_sub (Fin 1) a)))
        in b64_mul EARTH_RADIUS_KM c)"

text \<open>Horner form of the Taylor polynomials of sine and cosine, used to bound their
  values at given arguments.\<close>

fun horner :: "real list \<Rightarrow> real \<Rightarrow> real" where
  "horner [] z = 1"
| "horner (c # cs) z = 1 - z / c * horner cs z"

section \<open>Vocabulary of the claims\<close>

text \<open>A number is within \<open>[lo, hi]\<close> when it is finite and lies between the bounds; NaN
  and the infinities are within no range.\<close>

definition in_range :: "real \<Rightarrow> real \<Rightarrow> number \<Rightarrow> bool" where
  "in_range lo hi v = (case v of Fin x \<Rightarrow> lo \<le> x \<and> x \<le> hi | _ \<Rightarrow> False)"

text \<open>A valid coordinate: latitude in [-90, 90] and longitude in [-180, 180].\<close>

definition valid_coordinate :: "GeoCoordinate \<Rightarrow> bool" where
  "valid_coordinate c \<longleftrightarrow>
     in_range (- 90) 90 (latitude c) \<and> in_range (- 180) 180 (longitude c)"

definition valid_params :: "DistanceParams \<Rightarrow> bool" where
  "valid_params p \<longleftrightarrow> valid_coordinate (origin p) \<and> valid_coordinate (destination p)"

text \<open>The value of \<^verbatim>\<open>a\<close> on finite coordinates given in degrees.\<close>

definition hav_real :: "real \<Rightarrow> real \<Rightarrow> real \<Rightarrow> real \<Rightarrow> real" where
  "hav_real lat1 lon1 lat2 lon2 =
     (sin ((lat2 - lat1) * pi / 180 / 2))\<^sup>2 +
     (sin ((lon2 - lon1) * pi / 180 / 2))\<^sup>2 * cos (lat1 * pi / 180) * cos (lat2 * pi / 180)"

text \<open>The bounds of the box for a finite center (in degrees) and a finite angular
  distance \<open>g\<close> (in radians): the clamped latitudes, the longitude half-width and the
  clamped longitudes, and the test of the pole branch.\<close>

definition lat_lo :: "real \<Rightarrow> real \<Rightarrow> real" where
  "lat_lo lat g = min (max ((lat * pi / 180 - g) * 180 / pi) (- 90)) 90"

definition lat_hi :: "real \<Rightarrow> real \<Rightarrow> real" where
  "lat_hi lat g = min (max ((lat * pi / 180 + g) * 180 / pi) (- 90)) 90"

definition lon_delta :: "real \<Rightarrow> real \<Rightarrow> real" where
  "lon_delta lat g = arcsin (sin g / cos (lat * pi / 180))"

definition lon_lo :: "real \<Rightarrow> real \<Rightarrow> real \<Rightarrow> real" where
  "lon_lo lat lon g = min (max ((lon * pi / 180 - lon_delta lat g) * 180 / pi) (- 180)) 180"

definition lon_hi :: "real \<Rightarrow> real \<Rightarrow> real \<Rightarrow> real" where
  "lon_hi lat lon g = min (max ((lon * pi / 180 + lon_delta lat g) * 180 / pi) (- 180)) 180"

definition near_pole :: "real \<Rightarrow> real \<Rightarrow> bool" where
  "near_pole lat g \<longleftrightarrow> lat_lo lat g \<le> - 90 \<or> 90 \<le> lat_hi lat g"

text \<open>The properties of a box that the claims speak of.\<close>

definition well_formed_box :: "BoundingBox \<Rightarrow> bool" where
  "well_formed_box b \<longleftrightarrow>
     js_le (minLatitude b) (maxLatitude b) \<and>
     js_le (minLongitude b) (maxLongitude b) \<and>
     in_range (- 90) 90 (minLatitude b) \<and> in_range (- 90) 90 (maxLatitude b) \<and>
     in_range (- 180) 180 (minLongitude b) \<and> in_range (- 180) 180 (maxLongitude b)"

definition box_contains :: "BoundingBox \<Rightarrow> GeoCoordinate \<Rightarrow> bool" where
  "box_contains b c \<longleftrightarrow>
     js_le (minLatitude b) (latitude c) \<and> js_le (latitude c) (maxLatitude b) \<and>
     js_le (minLongitude b) (longitude c) \<and> js_le (longitude c) (maxLongitude b)"

definition maximal_box :: BoundingBox where
  "maximal_box = \<lparr>minLatitude = Fin (- 90), maxLatitude = Fin 90,
     minLongitude = Fin (- 180), maxLongitude = Fin 180\<rparr>"

section \<open>Evaluation on finite values\<close>

lemma in_range_Fin [simp]: "in_range lo hi (Fin x) \<longleftrightarrow> lo \<le> x \<and> x \<le> hi"
  and in_range_special [simp]: "\<not> in_range lo hi NaN" "\<not> in_range lo hi PosInf" "\<not> in_range lo hi NegInf"
  by (simp_all add: in_range_def)

lemma in_rangeE: "in_range lo hi v \<Longrightarrow> (\<And>x. v = Fin x \<Longrightarrow> lo \<le> x \<Longrightarrow> x \<le> hi \<Longrightarrow> P) \<Longrightarrow> P"
  by (cases v) simp_all

lemma isLatitudeInRange_iff: "isLatitudeInRange v \<longleftrightarrow> in_range (- 90) 90 v"
  by (cases v) (simp_all add: isLatitudeInRange_def js_ge_def MIN_LATITUDE_def MAX_LATITUDE_def)

lemma isLongitudeInRange_iff: "isLongitudeInRange v \<longleftrightarrow> in_range (- 180) 180 v"
  by (cases v) (simp_all add: isLongitudeInRange_def js_ge_def MIN_LONGITUDE_def MAX_LONGITUDE_def)

lemma toRadians_Fin: "toRadians (Fin x) = Fin (x * pi / 180)"
  by (simp add: toRadians_def)

lemma toDegrees_Fin: "toDegrees (Fin x) = Fin (x * 180 / pi)"
  by (simp add: toDegrees_def)

lemma toDegrees_special: "toDegrees NaN = NaN" "toDegrees PosInf = PosInf" "toDegrees NegInf = NegInf"
  by (simp_all add: toDegrees_def)

lemma clampLatitude_Fin: "clampLatitude (Fin x) = Fin (min (max x (- 90)) 90)"
  by (simp add: clampLatitude_def js_max_def js_min_def MIN_LATITUDE_def MAX_LATITUDE_def max_def min_def)

lemma clampLatitude_special: "clampLatitude NaN = NaN" "clampLatitude PosInf = Fin 90" "clampLatitude NegInf = Fin (- 90)"
  by (simp_all add: clampLatitude_def js_max_def js_min_def MIN_LATITUDE_def MAX_LATITUDE_def)

lemma clampLongitude_Fin: "clampLongitude (Fin x) = Fin (min (max x (- 180)) 180)"
  by (simp add: clampLongitude_def js_max_def js_min_def MIN_LONGITUDE_def MAX_LONGITUDE_def max_def min_def)

lemma clampLongitude_special: "clampLongitude NaN = NaN" "clampLongitude PosInf = Fin 180" "clampLongitude NegInf = Fin (- 180)"
  by (simp_all add: clampLongitude_def js_max_def js_min_def MIN_LONGITUDE_def MAX_LONGITUDE_def)


section \<open>The haversine term\<close>

lemma atan2_sqrt_arcsin:
  assumes "0 \<le> a" "a \<le> 1"
  shows "atan2_real (sqrt a) (sqrt (1 - a)) = arcsin (sqrt a)"
proof (cases "a = 1")
  case True
  then show ?thesis by (simp add: atan2_real_def)
next
  case False
  with assms have lt: "a < 1" by simp
  then have pos: "0 < sqrt (1 - a)" by simp
  have hi: "sqrt a < 1" using assms lt by (simp add: real_sqrt_lt_1_iff)
  have lo: "- 1 < sqrt a" using assms by (simp add: less_le_trans [of "-1" 0])
  have "arcsin (sqrt a) = arctan (sqrt a / sqrt (1 - (sqrt a)\<^sup>2))"
    by (rule arcsin_arctan [OF lo hi])
  also have "(sqrt a)\<^sup>2 = a" using assms by simp
  finally show ?thesis using pos by (simp add: atan2_real_def)
qed

lemma sin_half_squared: "(sin (x / 2))\<^sup>2 = (1 - cos x) / 2" for x :: real
  using cos_double_sin [of "x / 2"] by simp

lemma cos_deg_nonneg:
  assumes "- 90 \<le> x" "x \<le> 90"
  shows "0 \<le> cos (x * pi / 180)"
proof (rule cos_ge_zero)
  have "- 90 * pi \<le> x * pi" using assms(1) by (intro mult_right_mono) simp_all
  then show "- (pi / 2) \<le> x * pi / 180" by simp
  have "x * pi \<le> 90 * pi" using assms(2) by (intro mult_right_mono) simp_all
  then show "x * pi / 180 \<le> pi / 2" by simp
qed

lemma hav_real_nonneg:
  assumes "- 90 \<le> lat1" "lat1 \<le> 90" "- 90 \<le> lat2" "lat2 \<le> 90"
  shows "0 \<le> hav_real lat1 lon1 lat2 lon2"
  unfolding hav_real_def
  using cos_deg_nonneg [OF assms(1,2)] cos_deg_nonneg [OF assms(3,4)]
  by (intro add_nonneg_nonneg mult_nonneg_nonneg) simp_all

lemma hav_real_le_1:
  assumes "- 90 \<le> lat1" "lat1 \<le> 90" "- 90 \<le> lat2" "lat2 \<le> 90"
  shows "hav_real lat1 lon1 lat2 lon2 \<le> 1"
proof -
  define u where "u = lat1 * pi / 180"
  define v where "v = lat2 * pi / 180"
  define s where "s = (sin ((lon2 - lon1) * pi / 180 / 2))\<^sup>2"
  have cu: "0 \<le> cos u" and cv: "0 \<le> cos v"
    using cos_deg_nonneg assms by (simp_all add: u_def v_def)
  have s1: "s \<le> 1" unfolding s_def by (simp add: abs_square_le_1 abs_sin_le_one)
  have d: "(lat2 - lat1) * pi / 180 / 2 = (v - u) / 2" by (simp add: u_def v_def field_simps)
  have "hav_real lat1 lon1 lat2 lon2 = (sin ((v - u) / 2))\<^sup>2 + s * cos u * cos v"
    unfolding hav_real_def d by (simp add: u_def v_def s_def)
  also have "\<dots> \<le> (sin ((v - u) / 2))\<^sup>2 + cos u * cos v"
    using mult_right_mono [OF s1 mult_nonneg_nonneg [OF cu cv]] by (simp add: mult.assoc)
  also have "\<dots> = (1 + cos (u + v)) / 2"
    by (simp add: sin_half_squared cos_diff cos_add field_simps)
  also have "\<dots> \<le> 1" using cos_le_one [of "u + v"] by simp
  finally show ?thesis .
qed


lemma haversine_a_eq:
  assumes "latitude (origin p) = Fin lat1" "longitude (origin p) = Fin lon1"
    "latitude (destination p) = Fin lat2" "longitude (destination p) = Fin lon2"
  shows "haversine_a p = Fin (hav_real lat1 lon1 lat2 lon2)"
  using assms by (simp add: haversine_a_def hav_real_def toRadians_Fin js_sub_def)

lemma hav_real_sym: "hav_real lat1 lon1 lat2 lon2 = hav_real lat2 lon2 lat1 lon1"
proof -
  have 1: "(lat1 - lat2) * pi / 180 / 2 = - ((lat2 - lat1) * pi / 180 / 2)"
    and 2: "(lon1 - lon2) * pi / 180 / 2 = - ((lon2 - lon1) * pi / 180 / 2)"
    by (simp_all add: field_simps)
  show ?thesis unfolding hav_real_def 1 2 sin_minus power2_minus by (simp add: mult.commute mult.left_commute)
qed

lemma hav_real_same: "hav_real lat lon lat lon = 0"
  by (simp add: hav_real_def)

lemma arcsin_sqrt_nonneg:
  assumes "0 \<le> a" "a \<le> 1"
  shows "0 \<le> arcsin (sqrt a)"
proof -
  have "arcsin 0 \<le> arcsin (sqrt a)"
    using assms by (intro arcsin_le_arcsin) simp_all
  then show ?thesis by simp
qed


section \<open>Distance: closed form on valid input\<close>

lemma distance_eq:
  assumes "latitude (origin p) = Fin lat1" "longitude (origin p) = Fin lon1"
    "latitude (destination p) = Fin lat2" "longitude (destination p) = Fin lon2"
    and "- 90 \<le> lat1" "lat1 \<le> 90" "- 90 \<le> lat2" "lat2 \<le> 90"
    and "- 180 \<le> lon1" "lon1 \<le> 180" "- 180 \<le> lon2" "lon2 \<le> 180"
  shows "calculateHaversineDistanceKm p =
    Fin (6371 * (2 * arcsin (sqrt (hav_real lat1 lon1 lat2 lon2))))"
proof -
  let ?a = "hav_real lat1 lon1 lat2 lon2"
  have a0: "0 \<le> ?a" using assms(5-8) by (rule hav_real_nonneg)
  have a1: "?a \<le> 1" using assms(5-8) by (rule hav_real_le_1)
  have a: "haversine_a p = Fin ?a" using assms(1-4) by (rule haversine_a_eq)
  have "calculateHaversineDistanceKm p =
      js_mul EARTH_RADIUS_KM (js_mul (Fin 2)
        (js_atan2 (js_sqrt (Fin ?a)) (js_sqrt (js_sub (Fin 1) (Fin ?a)))))"
    using assms by (simp add: calculateHaversineDistanceKm_def isLatitudeInRange_iff
        isLongitudeInRange_iff a Let_def)
  also have "\<dots> = Fin (6371 * (2 * atan2_real (sqrt ?a) (sqrt (1 - ?a))))"
    using a0 a1 by (simp add: js_sub_def EARTH_RADIUS_KM_def)
  finally show ?thesis using atan2_sqrt_arcsin [OF a0 a1] by simp
qed

lemma valid_coordinateE:
  assumes "valid_coordinate c"
  obtains lat lon where "latitude c = Fin lat" "longitude c = Fin lon"
    "- 90 \<le> lat" "lat \<le> 90" "- 180 \<le> lon" "lon \<le> 180"
  using assms unfolding valid_coordinate_def by (auto elim!: in_rangeE)

lemma nan_iff_invalid_params:
  "js_isNaN (calculateHaversineDistanceKm p) \<longleftrightarrow> \<not> valid_params p"
proof (cases "valid_params p")
  case True
  then obtain lat1 lon1 lat2 lon2 where
    "latitude (origin p) = Fin lat1" "longitude (origin p) = Fin lon1"
    "latitude (destination p) = Fin lat2" "longitude (destination p) = Fin lon2"
    "- 90 \<le> lat1" "lat1 \<le> 90" "- 90 \<le> lat2" "lat2 \<le> 90"
    "- 180 \<le> lon1" "lon1 \<le> 180" "- 180 \<le> lon2" "lon2 \<le> 180"
    unfolding valid_params_def by (auto elim!: valid_coordinateE)
  from distance_eq [OF this] True show ?thesis by simp
next
  case False
  then show ?thesis
    by (simp add: valid_params_def valid_coordinate_def calculateHaversineDistanceKm_def
        isLatitudeInRange_iff isLongitudeInRange_iff)
qed


section \<open>The bounding box, branch by branch\<close>

lemma safeRadius_cases:
  "js_max NaN (Fin (1 / 10)) = NaN"
  "js_max PosInf (Fin (1 / 10)) = PosInf"
  "js_max NegInf (Fin (1 / 10)) = Fin (1 / 10)"
  "js_max (Fin x) (Fin (1 / 10)) = Fin (max x (1 / 10))"
  by (simp_all add: js_max_def max_def)

lemma deg_of_rad: "(x * pi / 180 + g) * 180 / pi = x + g * 180 / pi"
  "(x * pi / 180 - g) * 180 / pi = x - g * 180 / pi"
  by (simp_all add: field_simps)

lemma box_nan_radius:
  assumes "valid_coordinate (center p)" "radiusKm p = NaN"
  shows "computeBoundingBox p =
    \<lparr>minLatitude = NaN, maxLatitude = NaN, minLongitude = NaN, maxLongitude = NaN\<rparr>"
proof -
  from assms(1) obtain lat lon where c: "latitude (center p) = Fin lat" "longitude (center p) = Fin lon"
    "- 90 \<le> lat" "lat \<le> 90" "- 180 \<le> lon" "lon \<le> 180"
    by (rule valid_coordinateE)
  show ?thesis
    using c assms(2)
    by (simp add: computeBoundingBox_def angularDistance_def clampedMinLatitude_def clampedMaxLatitude_def deltaLongitude_def isLatitudeInRange_iff isLongitudeInRange_iff
        safeRadius_cases toRadians_Fin js_sub_def toDegrees_special clampLatitude_special
        clampLongitude_special Let_def js_ge_def MIN_LATITUDE_def MAX_LATITUDE_def)
qed

lemma box_posinf_radius:
  assumes "valid_coordinate (center p)" "radiusKm p = PosInf"
  shows "computeBoundingBox p =
    \<lparr>minLatitude = Fin (- 90), maxLatitude = Fin 90,
     minLongitude = Fin (- 180), maxLongitude = Fin 180\<rparr>"
proof -
  from assms(1) obtain lat lon where c: "latitude (center p) = Fin lat" "longitude (center p) = Fin lon"
    "- 90 \<le> lat" "lat \<le> 90" "- 180 \<le> lon" "lon \<le> 180"
    by (rule valid_coordinateE)
  show ?thesis
    using c assms(2)
    by (simp add: computeBoundingBox_def angularDistance_def clampedMinLatitude_def clampedMaxLatitude_def deltaLongitude_def isLatitudeInRange_iff isLongitudeInRange_iff
        safeRadius_cases toRadians_Fin js_sub_def toDegrees_special clampLatitude_special
        EARTH_RADIUS_KM_def Let_def js_ge_def MIN_LATITUDE_def MAX_LATITUDE_def
        MIN_LONGITUDE_def MAX_LONGITUDE_def)
qed

lemma box_pole_branch:
  assumes "latitude (center p) = Fin lat" "longitude (center p) = Fin lon"
    and "- 90 \<le> lat" "lat \<le> 90" "- 180 \<le> lon" "lon \<le> 180"
    and "js_max (radiusKm p) (Fin (1 / 10)) = Fin s"
    and "near_pole lat (s / 6371)"
  shows "computeBoundingBox p =
    \<lparr>minLatitude = Fin (lat_lo lat (s / 6371)), maxLatitude = Fin (lat_hi lat (s / 6371)),
     minLongitude = Fin (- 180), maxLongitude = Fin 180\<rparr>"
  using assms
  by (simp add: computeBoundingBox_def angularDistance_def clampedMinLatitude_def clampedMaxLatitude_def deltaLongitude_def isLatitudeInRange_iff isLongitudeInRange_iff
      toRadians_Fin js_sub_def toDegrees_Fin clampLatitude_Fin EARTH_RADIUS_KM_def Let_def
      js_ge_def MIN_LATITUDE_def MAX_LATITUDE_def MIN_LONGITUDE_def MAX_LONGITUDE_def
      near_pole_def lat_lo_def lat_hi_def)

lemma not_near_pole_rad:
  assumes "\<not> near_pole lat g"
  shows "- (pi / 2) < lat * pi / 180 - g" "lat * pi / 180 + g < pi / 2"
proof -
  let ?u = "lat * pi / 180"
  from assms have "\<not> lat_lo lat g \<le> - 90" "\<not> 90 \<le> lat_hi lat g"
    by (simp_all add: near_pole_def)
  then have lo: "- 90 < lat - g * 180 / pi" and hi: "lat + g * 180 / pi < 90"
    unfolding lat_lo_def lat_hi_def deg_of_rad by linarith+
  have e1: "?u - g = (lat - g * 180 / pi) * (pi / 180)"
    and e2: "?u + g = (lat + g * 180 / pi) * (pi / 180)"
    by (simp_all add: field_simps)
  have e3: "- (pi / 2) = - 90 * (pi / 180)" and e4: "pi / 2 = 90 * (pi / 180)"
    by simp_all
  show "- (pi / 2) < ?u - g"
    unfolding e1 e3 using lo by (intro mult_strict_right_mono) simp_all
  show "?u + g < pi / 2"
    unfolding e2 e4 using hi by (intro mult_strict_right_mono) simp_all
qed

lemma away_from_pole:
  assumes "\<not> near_pole lat g" "0 < g"
  shows "0 < sin g" "sin g < cos (lat * pi / 180)"
proof -
  let ?u = "lat * pi / 180"
  note u = not_near_pole_rad [OF assms(1)]
  from u have g: "g < pi / 2" using assms(2) by linarith
  then show "0 < sin g" using assms(2) by (intro sin_gt_zero) (use pi_gt_zero in linarith)+
  have abs: "\<bar>?u\<bar> < pi / 2 - g" using u by linarith
  have "sin g = cos (pi / 2 - g)" by (simp add: cos_diff)
  also have "\<dots> < cos \<bar>?u\<bar>"
    using abs g assms(2) by (intro cos_monotone_0_pi) (use pi_gt_zero in linarith)+
  also have "\<dots> = cos ?u" by (rule cos_abs_real)
  finally show "sin g < cos ?u" .
qed

lemma box_lon_branch:
  assumes "latitude (center p) = Fin lat" "longitude (center p) = Fin lon"
    and "- 90 \<le> lat" "lat \<le> 90" "- 180 \<le> lon" "lon \<le> 180"
    and "js_max (radiusKm p) (Fin (1 / 10)) = Fin s" "0 < s"
    and "\<not> near_pole lat (s / 6371)"
  shows "computeBoundingBox p =
    \<lparr>minLatitude = Fin (lat_lo lat (s / 6371)), maxLatitude = Fin (lat_hi lat (s / 6371)),
     minLongitude = Fin (lon_lo lat lon (s / 6371)),
     maxLongitude = Fin (lon_hi lat lon (s / 6371))\<rparr>"
proof -
  let ?g = "s / 6371"
  have g: "0 < ?g" using assms(8) by simp
  note r = away_from_pole [OF assms(9) g]
  have c: "cos (lat * pi / 180) \<noteq> 0" using r by linarith
  have q: "\<not> sin ?g / cos (lat * pi / 180) < - 1" "\<not> 1 < sin ?g / cos (lat * pi / 180)"
    using r by (simp_all add: field_simps) 
  show ?thesis
    using assms(1-7,9) c q
    by (simp add: computeBoundingBox_def angularDistance_def clampedMinLatitude_def clampedMaxLatitude_def deltaLongitude_def isLatitudeInRange_iff isLongitudeInRange_iff
      toRadians_Fin js_sub_def toDegrees_Fin clampLatitude_Fin clampLongitude_Fin
      EARTH_RADIUS_KM_def Let_def
      js_ge_def MIN_LATITUDE_def MAX_LATITUDE_def MIN_LONGITUDE_def MAX_LONGITUDE_def
      near_pole_def lat_lo_def lat_hi_def lon_lo_def lon_hi_def lon_delta_def)
qed


lemma deltaLongitude_finite:
  assumes "latitude (center p) = Fin lat" "js_max (radiusKm p) (Fin (1 / 10)) = Fin s"
    and "0 < s" "\<not> near_pole lat (s / 6371)"
  shows "deltaLongitude p = Fin (lon_delta lat (s / 6371))"
proof -
  have g: "0 < s / 6371" using assms(3) by simp
  note r = away_from_pole [OF assms(4) g]
  have c: "cos (lat * pi / 180) \<noteq> 0" using r by linarith
  have q: "\<not> sin (s / 6371) / cos (lat * pi / 180) < - 1"
    "\<not> 1 < sin (s / 6371) / cos (lat * pi / 180)"
    using r by (simp_all add: field_simps)
  show ?thesis
    using assms(1,2) c q
    by (simp add: deltaLongitude_def angularDistance_def toRadians_Fin EARTH_RADIUS_KM_def
        lon_delta_def)
qed

lemma safeRadius_finite:
  assumes "r \<noteq> NaN" "r \<noteq> PosInf"
  shows "\<exists>s. js_max r (Fin (1 / 10)) = Fin s \<and> 1 / 10 \<le> s"
proof (cases r)
  case NegInf
  then show ?thesis by (intro exI [of _ "1 / 10"]) (simp add: safeRadius_cases)
next
  case (Fin x)
  then show ?thesis by (intro exI [of _ "max x (1 / 10)"]) (simp add: safeRadius_cases)
qed (use assms in simp_all)

lemma clamped_latitudes_finite:
  assumes "latitude (center p) = Fin lat" "js_max (radiusKm p) (Fin (1 / 10)) = Fin s"
  shows "clampedMinLatitude p = Fin (lat_lo lat (s / 6371))"
    and "clampedMaxLatitude p = Fin (lat_hi lat (s / 6371))"
  using assms
  by (simp_all add: clampedMinLatitude_def clampedMaxLatitude_def angularDistance_def
      toRadians_Fin toDegrees_Fin clampLatitude_Fin js_sub_def EARTH_RADIUS_KM_def
      lat_lo_def lat_hi_def)

lemma clamped_latitudes_posinf:
  assumes "latitude (center p) = Fin lat" "radiusKm p = PosInf"
  shows "clampedMinLatitude p = Fin (- 90)" "clampedMaxLatitude p = Fin 90"
  using assms
  by (simp_all add: clampedMinLatitude_def clampedMaxLatitude_def angularDistance_def
      toRadians_Fin toDegrees_special clampLatitude_special js_sub_def safeRadius_cases
      EARTH_RADIUS_KM_def)

lemma lat_bounds:
  assumes "- 90 \<le> lat" "lat \<le> 90" "0 \<le> g"
  shows "- 90 \<le> lat_lo lat g" "lat_lo lat g \<le> lat" "lat \<le> lat_hi lat g" "lat_hi lat g \<le> 90"
proof -
  have "0 \<le> g * 180 / pi" using assms(3) by simp
  then show "- 90 \<le> lat_lo lat g" "lat_lo lat g \<le> lat" "lat \<le> lat_hi lat g" "lat_hi lat g \<le> 90"
    using assms(1,2) unfolding lat_lo_def lat_hi_def deg_of_rad by linarith+
qed

lemma lon_delta_nonneg:
  assumes "\<not> near_pole lat g" "0 < g"
  shows "0 \<le> lon_delta lat g"
proof -
  note r = away_from_pole [OF assms]
  have "0 \<le> sin g / cos (lat * pi / 180)" "sin g / cos (lat * pi / 180) \<le> 1"
    using r by (simp_all add: field_simps)
  then have "arcsin 0 \<le> arcsin (sin g / cos (lat * pi / 180))"
    by (intro arcsin_le_arcsin) simp_all
  then show ?thesis by (simp add: lon_delta_def)
qed

lemma lon_delta_less_quarter:
  assumes "\<not> near_pole lat g" "0 < g"
  shows "lon_delta lat g * 180 / pi < 90"
proof -
  note r = away_from_pole [OF assms]
  have "- 1 < sin g / cos (lat * pi / 180)" "sin g / cos (lat * pi / 180) < 1"
    using r by (simp_all add: field_simps)
  then have "arcsin (sin g / cos (lat * pi / 180)) < pi / 2"
    using arcsin_lt_bounded by blast
  then have "lon_delta lat g * (180 / pi) < pi / 2 * (180 / pi)"
    unfolding lon_delta_def by (intro mult_strict_right_mono) simp_all
  then show ?thesis by simp
qed

lemma lon_bounds:
  assumes "- 180 \<le> lon" "lon \<le> 180" "0 \<le> lon_delta lat g"
  shows "- 180 \<le> lon_lo lat lon g" "lon_lo lat lon g \<le> lon" "lon \<le> lon_hi lat lon g"
    "lon_hi lat lon g \<le> 180"
proof -
  have "0 \<le> lon_delta lat g * 180 / pi" using assms(3) by simp
  then show "- 180 \<le> lon_lo lat lon g" "lon_lo lat lon g \<le> lon" "lon \<le> lon_hi lat lon g"
    "lon_hi lat lon g \<le> 180"
    using assms(1,2) unfolding lon_lo_def lon_hi_def deg_of_rad by linarith+
qed

text \<open>The box for a valid center and a radius other than NaN, in all branches.\<close>

lemma box_valid_center:
  assumes "latitude (center p) = Fin lat" "longitude (center p) = Fin lon"
    and "- 90 \<le> lat" "lat \<le> 90" "- 180 \<le> lon" "lon \<le> 180"
    and "radiusKm p \<noteq> NaN"
  obtains lo hi west east where
    "computeBoundingBox p =
       \<lparr>minLatitude = Fin lo, maxLatitude = Fin hi,
        minLongitude = Fin west, maxLongitude = Fin east\<rparr>"
    "- 90 \<le> lo" "lo \<le> lat" "lat \<le> hi" "hi \<le> 90"
    "- 180 \<le> west" "west \<le> lon" "lon \<le> east" "east \<le> 180"
proof (cases "radiusKm p = PosInf")
  case True
  have v: "valid_coordinate (center p)" using assms(1-6) by (simp add: valid_coordinate_def)
  show ?thesis
    using that [of "- 90" 90 "- 180" 180] box_posinf_radius [OF v True] assms(3-6) by simp
next
  case False
  with assms(7) obtain s where s: "js_max (radiusKm p) (Fin (1 / 10)) = Fin s" "1 / 10 \<le> s"
    using safeRadius_finite [of "radiusKm p"] by blast
  let ?g = "s / 6371"
  have g: "0 < ?g" using s(2) by simp
  then have g0: "0 \<le> ?g" by simp
  note lb = lat_bounds [OF assms(3,4) g0]
  show ?thesis
  proof (cases "near_pole lat ?g")
    case True
    show ?thesis
      using that [of "lat_lo lat ?g" "lat_hi lat ?g" "- 180" 180]
        box_pole_branch [OF assms(1-6) s(1) True] lb assms(5,6) by simp
  next
    case False
    have s0: "0 < s" using s(2) by simp
    note lnb = lon_bounds [OF assms(5,6) lon_delta_nonneg [OF False g]]
    show ?thesis
      using that [of "lat_lo lat ?g" "lat_hi lat ?g" "lon_lo lat lon ?g" "lon_hi lat lon ?g"]
        box_lon_branch [OF assms(1-6) s(1) s0 False] lb lnb by simp
  qed
qed

lemma box_invalid_center:
  assumes "\<not> valid_coordinate (center p)"
  shows "computeBoundingBox p = maximal_box"
  using assms
  by (auto simp: computeBoundingBox_def valid_coordinate_def isLatitudeInRange_iff
      isLongitudeInRange_iff maximal_box_def MIN_LATITUDE_def MAX_LATITUDE_def
      MIN_LONGITUDE_def MAX_LONGITUDE_def)


lemma not_nan_iff: "\<not> js_isNaN r \<longleftrightarrow> r \<noteq> NaN"
  by (cases r) simp_all

lemma pole_example:
  "clampedMaxLatitude
     \<lparr>center = \<lparr>latitude = Fin 89.5, longitude = Fin 45\<rparr>, radiusKm = Fin 100\<rparr> = Fin 90"
proof -
  define d :: real where "d = 100 / 6371 * 180 / pi"
  have "pi * 6371 \<le> 4 * 6371" using pi_less_4 by simp
  then have d: "1 / 2 \<le> d" by (simp add: d_def field_simps)
  have "lat_hi 89.5 (100 / 6371) = min (max (89.5 + d) (- 90)) 90"
    unfolding lat_hi_def deg_of_rad d_def ..
  also have "\<dots> = 90" using d by linarith
  finally have "lat_hi 89.5 (100 / 6371) = 90" .
  moreover have "js_max (radiusKm \<lparr>center = \<lparr>latitude = Fin 89.5, longitude = Fin 45\<rparr>,
      radiusKm = Fin 100\<rparr>) (Fin (1 / 10)) = Fin 100"
    by (simp add: safeRadius_cases)
  ultimately show ?thesis
    using clamped_latitudes_finite(2) [of "\<lparr>center = \<lparr>latitude = Fin 89.5, longitude = Fin 45\<rparr>,
      radiusKm = Fin 100\<rparr>" "89.5" 100]
    by simp
qed

section \<open>The box near the antimeridian\<close>

text \<open>The center (0, 179.9) with a radius of 100 km: the search circle reaches across the
  antimeridian, the box ends at longitude 180.\<close>

lemma equator_lon_delta:
  assumes "0 \<le> g" "g \<le> pi / 2"
  shows "lon_delta 0 g = g"
  using assms by (simp add: lon_delta_def arcsin_sin)

lemma g100: "0 \<le> (100::real) / 6371" "(100::real) / 6371 \<le> pi / 2"
proof -
  show "0 \<le> (100::real) / 6371" by simp
  have "(100::real) / 6371 \<le> 1" by simp
  also have "\<dots> \<le> pi / 2" using pi_ge_two by simp
  finally show "(100::real) / 6371 \<le> pi / 2" .
qed

lemma half_width_100: "1 / 2 \<le> 100 / 6371 * 180 / pi" "100 / 6371 * 180 / pi \<le> 3 / 2"
proof -
  have "pi * 6371 \<le> 4 * 6371" using pi_less_4 by simp
  then show "1 / 2 \<le> 100 / 6371 * 180 / pi" by (simp add: field_simps)
  have "2 * 6371 \<le> pi * 6371" using pi_ge_two by simp
  then show "100 / 6371 * 180 / pi \<le> 3 / 2" by (simp add: field_simps)
qed

lemma not_near_pole_equator_100: "\<not> near_pole 0 (100 / 6371)"
  using half_width_100 unfolding near_pole_def lat_lo_def lat_hi_def deg_of_rad by linarith

lemma antimeridian_box:
  "computeBoundingBox
     \<lparr>center = \<lparr>latitude = Fin 0, longitude = Fin 179.9\<rparr>, radiusKm = Fin 100\<rparr> =
   \<lparr>minLatitude = Fin (- (100 / 6371 * 180 / pi)),
    maxLatitude = Fin (100 / 6371 * 180 / pi),
    minLongitude = Fin (179.9 - 100 / 6371 * 180 / pi),
    maxLongitude = Fin 180\<rparr>"
proof -
  let ?p = "\<lparr>center = \<lparr>latitude = Fin 0, longitude = Fin 179.9\<rparr>, radiusKm = Fin 100\<rparr>"
  let ?d = "100 / 6371 * 180 / pi :: real"
  have 1: "lat_lo 0 (100 / 6371) = - ?d" "lat_hi 0 (100 / 6371) = ?d"
    using half_width_100 unfolding lat_lo_def lat_hi_def deg_of_rad by linarith+
  have 2: "lon_lo 0 179.9 (100 / 6371) = 179.9 - ?d" "lon_hi 0 179.9 (100 / 6371) = 180"
    using half_width_100 unfolding lon_lo_def lon_hi_def deg_of_rad equator_lon_delta [OF g100]
    by linarith+
  have "computeBoundingBox ?p =
    \<lparr>minLatitude = Fin (lat_lo 0 (100 / 6371)), maxLatitude = Fin (lat_hi 0 (100 / 6371)),
     minLongitude = Fin (lon_lo 0 179.9 (100 / 6371)),
     maxLongitude = Fin (lon_hi 0 179.9 (100 / 6371))\<rparr>"
    by (rule box_lon_branch [OF _ _ _ _ _ _ _ _ not_near_pole_equator_100])
      (simp_all add: safeRadius_cases)
  then show ?thesis unfolding 1 2 .
qed

lemma hav_across_antimeridian: "hav_real 0 179.9 0 (- 179.9) = (sin (pi / 1800))\<^sup>2"
proof -
  have "(- 179.9 - 179.9) * pi / 180 / 2 = - (pi - pi / 1800)"
    by (simp add: field_simps)
  then have "sin ((- 179.9 - 179.9) * pi / 180 / 2) = - sin (pi / 1800)"
    by (simp only: sin_minus sin_pi_minus)
  then show ?thesis by (simp add: hav_real_def)
qed

lemma distance_across_antimeridian:
  "calculateHaversineDistanceKm
     \<lparr>origin = \<lparr>latitude = Fin 0, longitude = Fin 179.9\<rparr>,
      destination = \<lparr>latitude = Fin 0, longitude = Fin (- 179.9)\<rparr>\<rparr> = Fin (6371 * pi / 900)"
proof -
  have s: "0 \<le> sin (pi / 1800)"
    by (intro sin_ge_zero) simp_all
  have "arcsin (sqrt ((sin (pi / 1800))\<^sup>2)) = arcsin (sin (pi / 1800))"
    using s by simp
  also have "\<dots> = pi / 1800"
    by (intro arcsin_sin) (simp_all add: field_simps)
  finally have a: "arcsin (sqrt (hav_real 0 179.9 0 (- 179.9))) = pi / 1800"
    by (simp only: hav_across_antimeridian)
  have "calculateHaversineDistanceKm
     \<lparr>origin = \<lparr>latitude = Fin 0, longitude = Fin 179.9\<rparr>,
      destination = \<lparr>latitude = Fin 0, longitude = Fin (- 179.9)\<rparr>\<rparr> =
    Fin (6371 * (2 * arcsin (sqrt (hav_real 0 179.9 0 (- 179.9)))))"
    by (rule distance_eq) simp_all
  then show ?thesis unfolding a by simp
qed

section \<open>Spherical geometry of the box\<close>

text \<open>The haversine term determines the central angle \<open>\<theta>\<close> between two points, with
  \<open>cos \<theta>\<close> given by the spherical law of cosines. A point within angle \<open>g\<close> of the center
  differs from it by at most \<open>g\<close> in latitude and, away from the poles, by at most
  \<open>arcsin (sin g / cos u)\<close> in longitude, \<open>u\<close> the latitude of the center.\<close>

lemma cauchy_schwarz_2:
  fixes a b c d A :: real
  assumes "a\<^sup>2 + b\<^sup>2 = A\<^sup>2" "c\<^sup>2 + d\<^sup>2 = 1" "0 \<le> A"
  shows "a * c + b * d \<le> A"
proof -
  have "(a * c + b * d)\<^sup>2 + (a * d - b * c)\<^sup>2 = (a\<^sup>2 + b\<^sup>2) * (c\<^sup>2 + d\<^sup>2)"
    by (simp add: power2_eq_square algebra_simps)
  then have "(a * c + b * d)\<^sup>2 + (a * d - b * c)\<^sup>2 = A\<^sup>2"
    by (simp add: assms(1,2))
  moreover have "0 \<le> (a * d - b * c)\<^sup>2" by simp
  ultimately have "(a * c + b * d)\<^sup>2 \<le> A\<^sup>2" by linarith
  then show ?thesis using assms(3) by (rule power2_le_imp_le)
qed

lemma sphere_lon_bound:
  fixes u v w g \<theta> :: real
  assumes law: "cos \<theta> = sin u * sin v + cos u * cos v * cos w"
    and th: "0 \<le> \<theta>" "\<theta> \<le> g"
    and lat: "\<bar>v - u\<bar> \<le> g"
    and away: "- (pi / 2) < u - g" "u + g < pi / 2" "0 < g"
    and w: "\<bar>w\<bar> \<le> pi"
  shows "\<bar>w\<bar> \<le> arcsin (sin g / cos u)"
proof -
  have g2: "g < pi / 2" using away by linarith
  have absu: "\<bar>u\<bar> < pi / 2 - g" using away by linarith
  have absv: "\<bar>v\<bar> < pi / 2" using lat absu by linarith
  have cu: "0 < cos u" using absu away(3) by (intro cos_gt_zero_pi) linarith+
  have cv: "0 < cos v" using absv by (intro cos_gt_zero_pi) linarith+
  have sg: "0 < sin g" using away(3) g2 by (intro sin_gt_zero) (use pi_gt_zero in linarith)+
  have cg: "0 < cos g" using away(3) g2 by (intro cos_gt_zero_pi) linarith+
  have "sin g = cos (pi / 2 - g)" by (simp add: cos_diff)
  also have "\<dots> < cos \<bar>u\<bar>"
    using absu g2 away(3) by (intro cos_monotone_0_pi) (use pi_gt_zero in linarith)+
  finally have sg_cu: "sin g < cos u" by simp
  define K where "K = sqrt ((cos u)\<^sup>2 - (sin g)\<^sup>2)"
  have pos: "0 \<le> (cos u)\<^sup>2 - (sin g)\<^sup>2"
    using sg sg_cu by (simp add: power_mono)
  have K0: "0 \<le> K" unfolding K_def using pos by simp
  have K2: "K\<^sup>2 = (cos u)\<^sup>2 - (sin g)\<^sup>2" unfolding K_def using pos by simp
  have "(sin u)\<^sup>2 + K\<^sup>2 = (cos g)\<^sup>2"
    using sin_cos_squared_add [of u] sin_cos_squared_add [of g] K2 by linarith
  then have cs: "sin u * sin v + K * cos v \<le> cos g"
    using cg by (intro cauchy_schwarz_2) simp_all
  have "cos g \<le> cos \<theta>"
    using th g2 by (intro cos_monotone_0_pi_le) (use pi_gt_zero in linarith)+
  then have "K * cos v \<le> cos u * cos v * cos w" using cs law by linarith
  then have "K * cos v \<le> (cos u * cos w) * cos v" by (simp add: mult_ac)
  then have Kw: "K \<le> cos u * cos w" using cv by (simp only: mult_le_cancel_right_pos)
  define x where "x = sin g / cos u"
  have x: "0 \<le> x" "x \<le> 1" unfolding x_def using sg sg_cu cu by (simp_all add: field_simps)
  have "1 - x\<^sup>2 = K\<^sup>2 / (cos u)\<^sup>2"
    unfolding x_def K2 using cu by (simp add: power_divide field_simps)
  then have "sqrt (1 - x\<^sup>2) = K / cos u"
    using K0 cu by (simp add: real_sqrt_divide)
  then have cd: "cos (arcsin x) = K / cos u" using x by (simp add: cos_arcsin)
  have "K / cos u \<le> cos w" using Kw cu by (simp add: field_simps)
  then have le: "cos (arcsin x) \<le> cos \<bar>w\<bar>" using cd by simp
  have d0: "0 \<le> arcsin x" using x arcsin_le_arcsin [of 0 x] by simp
  show ?thesis
  proof (rule ccontr)
    assume "\<not> \<bar>w\<bar> \<le> arcsin (sin g / cos u)"
    then have "arcsin x < \<bar>w\<bar>" by (simp add: x_def)
    then have "cos \<bar>w\<bar> < cos (arcsin x)"
      using d0 w by (intro cos_monotone_0_pi) simp_all
    with le show False by simp
  qed
qed

lemma hav_law_of_cosines:
  "1 - 2 * hav_real lat1 lon1 lat2 lon2 =
     sin (lat1 * pi / 180) * sin (lat2 * pi / 180) +
     cos (lat1 * pi / 180) * cos (lat2 * pi / 180) * cos ((lon2 - lon1) * pi / 180)"
proof -
  define u where "u = lat1 * pi / 180"
  define v where "v = lat2 * pi / 180"
  define w where "w = (lon2 - lon1) * pi / 180"
  have d: "(lat2 - lat1) * pi / 180 = v - u" by (simp add: u_def v_def field_simps)
  have "hav_real lat1 lon1 lat2 lon2 = (sin ((v - u) / 2))\<^sup>2 + (sin (w / 2))\<^sup>2 * cos u * cos v"
    unfolding hav_real_def d u_def [symmetric] v_def [symmetric] w_def [symmetric] ..
  also have "\<dots> = (1 - cos (v - u)) / 2 + (1 - cos w) / 2 * cos u * cos v"
    by (simp only: sin_half_squared)
  finally have "1 - 2 * hav_real lat1 lon1 lat2 lon2 =
      cos (v - u) - (1 - cos w) * cos u * cos v"
    by (simp add: field_simps)
  also have "\<dots> = sin u * sin v + cos u * cos v * cos w"
    by (simp add: cos_diff algebra_simps)
  finally show ?thesis unfolding u_def v_def w_def .
qed

lemma central_angle:
  assumes "0 \<le> a" "a \<le> 1"
  shows "cos (2 * arcsin (sqrt a)) = 1 - 2 * a"
    and "0 \<le> 2 * arcsin (sqrt a)"
proof -
  have "- 1 \<le> sqrt a" using real_sqrt_ge_zero [OF assms(1)] by linarith
  moreover have "sqrt a \<le> 1" using assms(2) by simp
  ultimately have "sin (arcsin (sqrt a)) = sqrt a" by (rule sin_arcsin)
  then show "cos (2 * arcsin (sqrt a)) = 1 - 2 * a"
    using assms by (simp add: cos_double_sin)
  show "0 \<le> 2 * arcsin (sqrt a)" using arcsin_sqrt_nonneg [OF assms] by simp
qed

lemma hav_lat_bound:
  assumes "- 90 \<le> lat1" "lat1 \<le> 90" "- 90 \<le> lat2" "lat2 \<le> 90"
  shows "\<bar>lat2 * pi / 180 - lat1 * pi / 180\<bar> \<le> 2 * arcsin (sqrt (hav_real lat1 lon1 lat2 lon2))"
proof -
  let ?a = "hav_real lat1 lon1 lat2 lon2"
  define t where "t = \<bar>lat2 - lat1\<bar> * pi / 180 / 2"
  have a1: "?a \<le> 1" using assms by (rule hav_real_le_1)
  have t0: "0 \<le> t" unfolding t_def by simp
  have "\<bar>lat2 - lat1\<bar> * pi \<le> 180 * pi" using assms by (intro mult_right_mono) simp_all
  then have t1: "t \<le> pi / 2" unfolding t_def by simp
  have st: "0 \<le> sin t" using t0 t1 by (intro sin_ge_zero) (use pi_gt_zero in linarith)+
  have "(sin ((lat2 - lat1) * pi / 180 / 2))\<^sup>2 = (sin t)\<^sup>2"
  proof (cases "lat1 \<le> lat2")
    case True
    then show ?thesis by (simp add: t_def)
  next
    case False
    then have ab: "\<bar>lat2 - lat1\<bar> = - (lat2 - lat1)" by simp
    have neg: "(- x) * pi / 180 / 2 = - (x * pi / 180 / 2)" for x :: real by simp
    have "t = - ((lat2 - lat1) * pi / 180 / 2)" unfolding t_def ab by (rule neg)
    then show ?thesis by (simp only: sin_minus power2_minus)
  qed
  moreover have "0 \<le> (sin ((lon2 - lon1) * pi / 180 / 2))\<^sup>2 * cos (lat1 * pi / 180) * cos (lat2 * pi / 180)"
    using cos_deg_nonneg [OF assms(1,2)] cos_deg_nonneg [OF assms(3,4)]
    by (intro mult_nonneg_nonneg) simp_all
  ultimately have "(sin t)\<^sup>2 \<le> ?a" unfolding hav_real_def by linarith
  then have "sqrt ((sin t)\<^sup>2) \<le> sqrt ?a" by (simp only: real_sqrt_le_iff)
  then have le: "sin t \<le> sqrt ?a" using st by simp
  have "sqrt ?a \<le> 1" using a1 by simp
  then have "arcsin (sin t) \<le> arcsin (sqrt ?a)"
    using le st by (intro arcsin_le_arcsin) linarith+
  moreover have "arcsin (sin t) = t" using t0 t1 by (intro arcsin_sin) linarith+
  ultimately have "2 * t \<le> 2 * arcsin (sqrt ?a)" by simp
  moreover have "2 * t = \<bar>lat2 * pi / 180 - lat1 * pi / 180\<bar>"
  proof -
    have e: "lat2 * pi / 180 - lat1 * pi / 180 = (lat2 - lat1) * (pi / 180)"
      by (simp add: field_simps)
    have "\<bar>(lat2 - lat1) * (pi / 180)\<bar> = \<bar>lat2 - lat1\<bar> * (pi / 180)"
      by (simp add: abs_mult)
    then show ?thesis unfolding e t_def by simp
  qed
  ultimately show ?thesis by simp
qed

lemma deg_bound_of_rad:
  fixes x y d :: real
  assumes "\<bar>(y - x) * pi / 180\<bar> \<le> d"
  shows "x - d * 180 / pi \<le> y" "y \<le> x + d * 180 / pi"
proof -
  have "\<bar>(y - x) * pi / 180\<bar> = \<bar>y - x\<bar> * (pi / 180)" by (simp add: abs_mult)
  then have "\<bar>y - x\<bar> * (pi / 180) \<le> d" using assms by simp
  then have "\<bar>y - x\<bar> * (pi / 180) * (180 / pi) \<le> d * (180 / pi)"
    by (intro mult_right_mono) simp_all
  then have "\<bar>y - x\<bar> \<le> d * 180 / pi" by simp
  then show "x - d * 180 / pi \<le> y" "y \<le> x + d * 180 / pi" by linarith+
qed

lemma clamp_keeps:
  fixes lo hi x y :: real
  assumes "lo \<le> y" "y \<le> hi"
  shows "x \<le> y \<Longrightarrow> min (max x lo) hi \<le> y" "y \<le> x \<Longrightarrow> y \<le> min (max x lo) hi"
  using assms by linarith+

section \<open>The distance in exact arithmetic\<close>

text \<open>
  With every operation exact, the haversine term of two valid coordinates lies in [0, 1]
  and the formula behaves as its mathematics says: the result is NaN only on invalid
  input, it is finite and not negative on valid input, and it is the same in both
  directions. These three facts are about the exact model only; in binary64 the program
  departs from each of them, as the traces of the later sections show.
\<close>

lemma distance_nan_iff_exact:
  "js_isNaN (calculateHaversineDistanceKm p) \<longleftrightarrow>
     \<not> in_range (- 90) 90 (latitude (origin p)) \<or>
     \<not> in_range (- 180) 180 (longitude (origin p)) \<or>
     \<not> in_range (- 90) 90 (latitude (destination p)) \<or>
     \<not> in_range (- 180) 180 (longitude (destination p))"
  using nan_iff_invalid_params [of p] by (auto simp: valid_params_def valid_coordinate_def)

lemma distance_symmetric_exact:
  assumes "valid_coordinate A" "valid_coordinate B"
  shows "js_eq (calculateHaversineDistanceKm \<lparr>origin = A, destination = B\<rparr>)
               (calculateHaversineDistanceKm \<lparr>origin = B, destination = A\<rparr>)"
proof -
  from assms(1) obtain lat1 lon1 where A: "latitude A = Fin lat1" "longitude A = Fin lon1"
    "- 90 \<le> lat1" "lat1 \<le> 90" "- 180 \<le> lon1" "lon1 \<le> 180"
    by (rule valid_coordinateE)
  from assms(2) obtain lat2 lon2 where B: "latitude B = Fin lat2" "longitude B = Fin lon2"
    "- 90 \<le> lat2" "lat2 \<le> 90" "- 180 \<le> lon2" "lon2 \<le> 180"
    by (rule valid_coordinateE)
  have "calculateHaversineDistanceKm \<lparr>origin = A, destination = B\<rparr> =
      Fin (6371 * (2 * arcsin (sqrt (hav_real lat1 lon1 lat2 lon2))))"
    by (rule distance_eq) (simp_all add: A B)
  moreover have "calculateHaversineDistanceKm \<lparr>origin = B, destination = A\<rparr> =
      Fin (6371 * (2 * arcsin (sqrt (hav_real lat2 lon2 lat1 lon1))))"
    by (rule distance_eq) (simp_all add: A B)
  ultimately show ?thesis
    by (simp add: js_eq_def hav_real_sym [of lat1 lon1 lat2 lon2])
qed

lemma distance_nonneg_finite_exact:
  assumes "valid_coordinate A" "valid_coordinate B"
  shows "js_isFinite (calculateHaversineDistanceKm \<lparr>origin = A, destination = B\<rparr>) \<and>
         js_le (Fin 0) (calculateHaversineDistanceKm \<lparr>origin = A, destination = B\<rparr>) \<and>
         in_range 0 1 (haversine_a \<lparr>origin = A, destination = B\<rparr>)"
proof -
  from assms(1) obtain lat1 lon1 where A: "latitude A = Fin lat1" "longitude A = Fin lon1"
    "- 90 \<le> lat1" "lat1 \<le> 90" "- 180 \<le> lon1" "lon1 \<le> 180"
    by (rule valid_coordinateE)
  from assms(2) obtain lat2 lon2 where B: "latitude B = Fin lat2" "longitude B = Fin lon2"
    "- 90 \<le> lat2" "lat2 \<le> 90" "- 180 \<le> lon2" "lon2 \<le> 180"
    by (rule valid_coordinateE)
  let ?a = "hav_real lat1 lon1 lat2 lon2"
  have a0: "0 \<le> ?a" using A(3,4) B(3,4) by (rule hav_real_nonneg)
  have a1: "?a \<le> 1" using A(3,4) B(3,4) by (rule hav_real_le_1)
  have d: "calculateHaversineDistanceKm \<lparr>origin = A, destination = B\<rparr> =
      Fin (6371 * (2 * arcsin (sqrt ?a)))"
    by (rule distance_eq) (simp_all add: A B)
  have a: "haversine_a \<lparr>origin = A, destination = B\<rparr> = Fin ?a"
    by (rule haversine_a_eq) (simp_all add: A B)
  show ?thesis using arcsin_sqrt_nonneg [OF a0 a1] a0 a1 by (simp add: d a)
qed

section \<open>Rounding to binary64\<close>

lemma roundeven_near:
  assumes "\<bar>x - of_int n\<bar> < 1 / 2"
  shows "roundeven x = n"
proof -
  from assms have lo: "of_int n - 1 / 2 < x" and hi: "x < of_int n + 1 / 2" by linarith+
  show ?thesis
  proof (cases "of_int n \<le> x")
    case True
    then have f: "\<lfloor>x\<rfloor> = n" using hi by (intro floor_unique) linarith+
    then show ?thesis using hi by (simp add: roundeven_def Let_def)
  next
    case False
    then have f: "\<lfloor>x\<rfloor> = n - 1" using lo by (intro floor_unique) simp_all
    then show ?thesis using lo False by (simp add: roundeven_def Let_def)
  qed
qed

lemma rnd64I:
  assumes k: "2 powi k \<le> \<bar>x\<bar>" "\<bar>x\<bar> < 2 powi (k + 1)" "- 1022 \<le> k" "k \<le> 1022"
    and d: "d = of_int n * 2 powi (k - 52)"
    and near: "\<bar>x - d\<bar> < 2 powi (k - 53)"
  shows "rnd64 x = Fin d"
proof -
  have "(0::real) < 2 powi k" by simp
  with k(1) have xp: "0 < \<bar>x\<bar>" by linarith
  then have x0: "x \<noteq> 0" by auto
  have p1: "2 powr real_of_int k = 2 powi k"
    by (simp add: powr_real_of_int')
  have p2: "2 powr real_of_int (k + 1) = 2 powi (k + 1)"
    by (rule powr_real_of_int') simp_all
  have "\<lfloor>log 2 \<bar>x\<bar>\<rfloor> = k"
    using k(1,2) xp floor_log_eq_powr_iff [of "\<bar>x\<bar>" 2 k] p1 p2 by simp
  then have e: "max (\<lfloor>log 2 \<bar>x\<bar>\<rfloor> - 52) (- 1074) = k - 52" using k(3) by simp
  let ?u = "(2::real) powi (k - 52)"
  have u: "0 < ?u" by simp
  have half: "2 powi (k - 53) = ?u / 2"
    using power_int_diff [of "2::real" "k - 52" 1] by simp
  have "\<bar>x / ?u - of_int n\<bar> = \<bar>x - d\<bar> / ?u"
    using u by (simp add: d abs_divide field_simps flip: abs_mult_pos)
  also have "\<dots> < 1 / 2" using near u by (simp add: half field_simps)
  finally have re: "roundeven (x / ?u) = n" by (rule roundeven_near)
  have "\<bar>d\<bar> \<le> \<bar>x\<bar> + \<bar>x - d\<bar>" by linarith
  also have "\<dots> < 2 powi (k + 1) + 2 powi (k - 53)" using k(2) near by linarith
  also have "\<dots> \<le> 2 powi 1023 + 2 powi 1023"
    using k(4) by (intro add_mono power_int_increasing) simp_all
  also have "\<dots> = 2 ^ 1024" by simp
  finally have "\<not> 2 ^ 1024 \<le> \<bar>d\<bar>" by simp
  then show ?thesis using x0 by (simp add: rnd64_def e re d Let_def)
qed

lemma rnd64_0 [simp]: "rnd64 0 = Fin 0"
  by (simp add: rnd64_def)

lemma rnd64_between:
  assumes x: "lo \<le> x \<and> x \<le> hi"
    and k: "2 powi k \<le> lo" "hi < 2 powi (k + 1)" "- 1022 \<le> k" "k \<le> 1022"
    and d: "d = of_int n * 2 powi (k - 52)"
    and near: "d - 2 powi (k - 53) < lo" "hi < d + 2 powi (k - 53)"
  shows "rnd64 x = Fin d" "rnd64 (- x) = Fin (- d)"
proof -
  have p: "(0::real) < 2 powi k" by simp
  then have ax: "\<bar>x\<bar> = x" using x k(1) by linarith
  show "rnd64 x = Fin d"
    by (rule rnd64I [OF _ _ k(3,4) d]) (use x k(1,2) near ax in linarith)+
  have d': "- d = of_int (- n) * 2 powi (k - 52)" by (simp add: d)
  have ax': "\<bar>- x\<bar> = x" using ax by simp
  show "rnd64 (- x) = Fin (- d)"
    by (rule rnd64I [OF _ _ k(3,4) d']) (use x k(1,2) near ax' in linarith)+
qed

lemma rnd64_below_one:
  assumes "1 - 1 / 2 ^ 54 < x" "x \<le> 1"
  shows "rnd64 x = Fin 1"
proof (cases "x = 1")
  case True
  have "rnd64 1 = Fin 1"
    by (rule rnd64I [where k = 0 and n = 4503599627370496]) simp_all
  then show ?thesis by (simp only: True)
next
  case False
  have h: "(1::real) / 2 \<le> 1 - 1 / 2 ^ 54" by simp
  have p1: "(2::real) powi (- 1) = 1 / 2" by simp
  have p2: "(2::real) powi (- 1 - 53) = 1 / 2 ^ 54" by (simp add: power_int_minus_divide)
  have p3: "(1::real) = of_int 9007199254740992 * 2 powi (- 1 - 52)"
    by (simp add: power_int_minus_divide)
  from assms False have x: "1 / 2 \<le> \<bar>x\<bar>" "\<bar>x\<bar> < 1" "\<bar>x - 1\<bar> < 1 / 2 ^ 54"
    using h by linarith+
  show ?thesis
  proof (rule rnd64I [where k = "- 1" and n = 9007199254740992])
    show "2 powi (- 1) \<le> \<bar>x\<bar>" using x(1) by (simp only: p1)
    show "\<bar>x\<bar> < 2 powi (- 1 + 1)" using x(2) by simp
    show "(1::real) = of_int 9007199254740992 * 2 powi (- 1 - 52)" by (rule p3)
    show "\<bar>x - 1\<bar> < 2 powi (- 1 - 53)" using x(3) by (simp only: p2)
  qed simp_all
qed

lemma js_atan2_NaN_right: "js_atan2 y NaN = NaN"
  by (cases y) simp_all

lemma rnd64_minus_ulp_of_one: "rnd64 (- (1 / 4503599627370496)) = Fin (- (1 / 4503599627370496))"
  by (rule rnd64I [where k = "- 52" and n = "- 4503599627370496"]) simp_all

section \<open>Bounds on sine and cosine\<close>

lemma cos_taylor_bound:
  "\<bar>cos x - (\<Sum>m<n. cos_coeff m * x ^ m)\<bar> \<le> \<bar>x\<bar> ^ n / fact n"
proof -
  obtain t where c: "cos x = (\<Sum>m<n. cos_coeff m * x ^ m) + (cos (t + 1 / 2 * real n * pi) / fact n) * x ^ n"
    using Maclaurin_cos_expansion [of x n] by blast
  define w where "w = cos (t + 1 / 2 * real n * pi)"
  define y where "y = \<bar>x\<bar> ^ n / fact n"
  define S where "S = (\<Sum>m<n. cos_coeff m * x ^ m)"
  have y: "0 \<le> y" unfolding y_def by simp
  have w: "\<bar>w\<bar> \<le> 1" unfolding w_def by simp
  have "cos x = S + w / fact n * x ^ n" using c unfolding w_def S_def .
  then have "cos x - S = w * (x ^ n / fact n)" by simp
  then have "\<bar>cos x - S\<bar> = \<bar>w\<bar> * \<bar>x ^ n / fact n\<bar>" by (simp only: abs_mult)
  also have "\<bar>x ^ n / fact n\<bar> = y" unfolding y_def by (simp add: power_abs)
  also have "\<bar>w\<bar> * y \<le> 1 * y" using w y by (rule mult_right_mono)
  finally show ?thesis unfolding y_def S_def by simp
qed

lemma horner_step:
  assumes "l' \<le> horner cs z \<and> horner cs z \<le> u'" "0 \<le> z" "0 < c"
    and "l \<le> 1 - z / c * u'" "1 - z / c * l' \<le> u"
  shows "l \<le> horner (c # cs) z \<and> horner (c # cs) z \<le> u"
proof -
  have a: "0 \<le> z / c" using assms(2,3) by simp
  have "z / c * horner cs z \<le> z / c * u'"
    by (rule mult_left_mono) (use assms(1) a in simp_all)
  moreover have "z / c * l' \<le> z / c * horner cs z"
    by (rule mult_left_mono) (use assms(1) a in simp_all)
  ultimately show ?thesis using assms(4,5) by (simp only: horner.simps) linarith
qed

lemma sin_between:
  assumes "0 \<le> x" "l \<le> horner cs (x\<^sup>2) \<and> horner cs (x\<^sup>2) \<le> u"
    and "(\<Sum>m<n. sin_coeff m * x ^ m) = x * horner cs (x\<^sup>2)"
    and "x ^ n / fact n \<le> r"
  shows "x * l - r \<le> sin x \<and> sin x \<le> x * u + r"
proof -
  have "inverse (fact n) * \<bar>x\<bar> ^ n = x ^ n / fact n"
    using assms(1) by (simp add: divide_inverse mult.commute)
  then have "\<bar>sin x - x * horner cs (x\<^sup>2)\<bar> \<le> r"
    using Maclaurin_sin_bound [of x n] assms(3,4) by simp
  moreover have "x * l \<le> x * horner cs (x\<^sup>2)" "x * horner cs (x\<^sup>2) \<le> x * u"
    using assms(1,2) by (simp_all add: mult_left_mono)
  ultimately show ?thesis by linarith
qed

lemma cos_between:
  assumes "l \<le> horner cs (x\<^sup>2) \<and> horner cs (x\<^sup>2) \<le> u"
    and "(\<Sum>m<n. cos_coeff m * x ^ m) = horner cs (x\<^sup>2)"
    and "\<bar>x\<bar> ^ n / fact n \<le> r"
  shows "l - r \<le> cos x \<and> cos x \<le> u + r"
proof -
  have "\<bar>cos x - horner cs (x\<^sup>2)\<bar> \<le> r"
    using cos_taylor_bound [of x n] assms(2,3) by simp
  then show ?thesis using assms(1) by linarith
qed

lemma sum_upto_18: "(\<Sum>m<18. f m) = f 0 + f 1 + f 2 + f 3 + f 4 + f 5 + f 6 + f 7 + f 8 + f 9 + f 10 + f 11 + f 12 + f 13 + f 14 + f 15 + f 16 + f 17" for f :: "nat \<Rightarrow> real"
  by (simp add: numeral_eq_Suc)

lemma sum_upto_19: "(\<Sum>m<19. f m) = f 0 + f 1 + f 2 + f 3 + f 4 + f 5 + f 6 + f 7 + f 8 + f 9 + f 10 + f 11 + f 12 + f 13 + f 14 + f 15 + f 16 + f 17 + f 18" for f :: "nat \<Rightarrow> real"
  by (simp add: numeral_eq_Suc)

lemma sum_upto_33: "(\<Sum>m<33. f m) = f 0 + f 1 + f 2 + f 3 + f 4 + f 5 + f 6 + f 7 + f 8 + f 9 + f 10 + f 11 + f 12 + f 13 + f 14 + f 15 + f 16 + f 17 + f 18 + f 19 + f 20 + f 21 + f 22 + f 23 + f 24 + f 25 + f 26 + f 27 + f 28 + f 29 + f 30 + f 31 + f 32" for f :: "nat \<Rightarrow> real"
  by (simp add: numeral_eq_Suc)

lemma cos_poly_18: "(\<Sum>m<18. cos_coeff m * x ^ m) = horner [2, 12, 30, 56, 90, 132, 182, 240] (x\<^sup>2)" for x :: real
  by (simp add: sum_upto_18 cos_coeff_def fact_numeral power2_eq_square algebra_simps power_numeral_reduce)

lemma sin_poly_19: "(\<Sum>m<19. sin_coeff m * x ^ m) = x * horner [6, 20, 42, 72, 110, 156, 210, 272] (x\<^sup>2)" for x :: real
  by (simp add: sum_upto_19 sin_coeff_def fact_numeral power2_eq_square algebra_simps power_numeral_reduce)

lemma sin_poly_33: "(\<Sum>m<33. sin_coeff m * x ^ m) = x * horner [6, 20, 42, 72, 110, 156, 210, 272, 342, 420, 506, 600, 702, 812, 930] (x\<^sup>2)" for x :: real
  by (simp add: sum_upto_33 sin_coeff_def fact_numeral power2_eq_square algebra_simps power_numeral_reduce)

section \<open>The binary64 computation at (8, 0) and (-8, 180)\<close>

text \<open>Step by step: each intermediate value of \<^verbatim>\<open>calculateHaversineDistanceKm\<close> at the
  origin (8, 0) and the destination (-8, 180), two valid points 180 degrees apart in
  longitude. The haversine term comes out one unit in the last place above 1.\<close>

lemma haversine_a64_near_antipodal:
  "haversine_a64 \<lparr>origin = \<lparr>latitude = Fin 8, longitude = Fin 0\<rparr>, destination = \<lparr>latitude = Fin (- 8), longitude = Fin 180\<rparr>\<rparr> = Fin (4503599627370497 / 4503599627370496)"
proof -
  define u_dlat where "u_dlat = b64_sub (Fin (- 8)) (Fin 8)"
  have u_dlat: "u_dlat = Fin (- 16)"
    unfolding u_dlat_def  b64_sub_def
    by (simp add: js_sub_def PI64_def, rule rnd64I [where k = "4" and n = "-4503599627370496"], simp_all add: power2_eq_square)
  define u_dLatm where "u_dLatm = b64_mul u_dlat (Fin PI64)"
  have u_dLatm: "u_dLatm = Fin (- (884279719003555 / 17592186044416))"
    unfolding u_dLatm_def u_dlat b64_mul_def
    by (simp add: js_sub_def PI64_def, rule rnd64I [where k = "5" and n = "-7074237752028440"], simp_all add: power2_eq_square)
  define u_dLat where "u_dLat = b64_div u_dLatm (Fin 180)"
  have u_dLat: "u_dLat = Fin (- (5030569068109113 / 18014398509481984))"
    unfolding u_dLat_def u_dLatm b64_div_def
    by (simp add: js_sub_def PI64_def, rule rnd64I [where k = "-2" and n = "-5030569068109113"], simp_all add: power2_eq_square)
  define u_dlon where "u_dlon = b64_sub (Fin 180) (Fin 0)"
  have u_dlon: "u_dlon = Fin 180"
    unfolding u_dlon_def  b64_sub_def
    by (simp add: js_sub_def PI64_def, rule rnd64I [where k = "7" and n = "6333186975989760"], simp_all add: power2_eq_square)
  define u_dLonm where "u_dLonm = b64_mul u_dlon (Fin PI64)"
  have u_dLonm: "u_dLonm = Fin (4974073419394997 / 8796093022208)"
    unfolding u_dLonm_def u_dlon b64_mul_def
    by (simp add: js_sub_def PI64_def, rule rnd64I [where k = "9" and n = "4974073419394997"], simp_all add: power2_eq_square)
  define u_dLon where "u_dLon = b64_div u_dLonm (Fin 180)"
  have u_dLon: "u_dLon = Fin (884279719003555 / 281474976710656)"
    unfolding u_dLon_def u_dLonm b64_div_def
    by (simp add: js_sub_def PI64_def, rule rnd64I [where k = "1" and n = "7074237752028440"], simp_all add: power2_eq_square)
  define u_oLatm where "u_oLatm = b64_mul (Fin 8) (Fin PI64)"
  have u_oLatm: "u_oLatm = Fin (884279719003555 / 35184372088832)"
    unfolding u_oLatm_def  b64_mul_def
    by (simp add: js_sub_def PI64_def, rule rnd64I [where k = "4" and n = "7074237752028440"], simp_all add: power2_eq_square)
  define u_oLat where "u_oLat = b64_div u_oLatm (Fin 180)"
  have u_oLat: "u_oLat = Fin (5030569068109113 / 36028797018963968)"
    unfolding u_oLat_def u_oLatm b64_div_def
    by (simp add: js_sub_def PI64_def, rule rnd64I [where k = "-3" and n = "5030569068109113"], simp_all add: power2_eq_square)
  define u_eLatm where "u_eLatm = b64_mul (Fin (- 8)) (Fin PI64)"
  have u_eLatm: "u_eLatm = Fin (- (884279719003555 / 35184372088832))"
    unfolding u_eLatm_def  b64_mul_def
    by (simp add: js_sub_def PI64_def, rule rnd64I [where k = "4" and n = "-7074237752028440"], simp_all add: power2_eq_square)
  define u_eLat where "u_eLat = b64_div u_eLatm (Fin 180)"
  have u_eLat: "u_eLat = Fin (- (5030569068109113 / 36028797018963968))"
    unfolding u_eLat_def u_eLatm b64_div_def
    by (simp add: js_sub_def PI64_def, rule rnd64I [where k = "-3" and n = "-5030569068109113"], simp_all add: power2_eq_square)
  define u_h1 where "u_h1 = b64_div u_dLat (Fin 2)"
  have u_h1: "u_h1 = Fin (- (5030569068109113 / 36028797018963968))"
    unfolding u_h1_def u_dLat b64_div_def
    by (simp add: js_sub_def PI64_def, rule rnd64I [where k = "-3" and n = "-5030569068109113"], simp_all add: power2_eq_square)
  define u_s1 where "u_s1 = b64_sin u_h1"
  define u_s1_x :: real where "u_s1_x = 5030569068109113 / 36028797018963968"
  define u_s1_z :: real where "u_s1_z = u_s1_x\<^sup>2"
  have u_s1_z0: "0 \<le> u_s1_z" unfolding u_s1_z_def by simp
  have u_s1_zv: "u_s1_z = 25306625149016189589445273646769 / 1298074214633706907132624082305024" unfolding u_s1_z_def u_s1_x_def by (simp add: power2_eq_square)
  have u_s1_h0: "1 \<le> horner [] u_s1_z \<and> horner [] u_s1_z \<le> 1" by simp
  have u_s1_h1: "39611241930256929122754748301 / 39614081257132168796771975168 \<le> horner [272] u_s1_z \<and> horner [272] u_s1_z \<le> 79222483860513858245509496603 / 79228162514264337593543950336"
    by (rule horner_step [OF u_s1_h0 u_s1_z0]) (simp_all add: u_s1_zv)
  have u_s1_h2: "79220807832779329168092754131 / 79228162514264337593543950336 \<le> horner [210, 272] u_s1_z \<and> horner [210, 272] u_s1_z \<le> 19805201958194832292023188533 / 19807040628566084398385987584"
    by (rule horner_step [OF u_s1_h1 u_s1_z0]) (simp_all add: u_s1_zv)
  have u_s1_h3: "39609131095475668301838317699 / 39614081257132168796771975168 \<le> horner [156, 210, 272] u_s1_z \<and> horner [156, 210, 272] u_s1_z \<le> 79218262190951336603676635399 / 79228162514264337593543950336"
    by (rule horner_step [OF u_s1_h2 u_s1_z0]) (simp_all add: u_s1_zv)
  have u_s1_h4: "79214122506916791662730064783 / 79228162514264337593543950336 \<le> horner [110, 156, 210, 272] u_s1_z \<and> horner [110, 156, 210, 272] u_s1_z \<le> 4950882656682299478920629049 / 4951760157141521099596496896"
    by (rule horner_step [OF u_s1_h3 u_s1_z0]) (simp_all add: u_s1_zv)
  have u_s1_h5: "39603356811972735359761028859 / 39614081257132168796771975168 \<le> horner [72, 110, 156, 210, 272] u_s1_z \<and> horner [72, 110, 156, 210, 272] u_s1_z \<le> 79206713623945470719522057719 / 79228162514264337593543950336"
    by (rule horner_step [OF u_s1_h4 u_s1_z0]) (simp_all add: u_s1_zv)
  have u_s1_h6: "79191396427050758914982396519 / 79228162514264337593543950336 \<le> horner [42, 72, 110, 156, 210, 272] u_s1_z \<and> horner [42, 72, 110, 156, 210, 272] u_s1_z \<le> 9898924553381344864372799565 / 9903520314283042199192993792"
    by (rule horner_step [OF u_s1_h5 u_s1_z0]) (simp_all add: u_s1_zv)
  have u_s1_h7: "79150968661947810951268703337 / 79228162514264337593543950336 \<le> horner [20, 42, 72, 110, 156, 210, 272] u_s1_z \<and> horner [20, 42, 72, 110, 156, 210, 272] u_s1_z \<le> 39575484330973905475634351669 / 39614081257132168796771975168"
    by (rule horner_step [OF u_s1_h6 u_s1_z0]) (simp_all add: u_s1_zv)
  have u_s1_h8: "78970981033225178419538892531 / 79228162514264337593543950336 \<le> horner [6, 20, 42, 72, 110, 156, 210, 272] u_s1_z \<and> horner [6, 20, 42, 72, 110, 156, 210, 272] u_s1_z \<le> 19742745258306294604884723133 / 19807040628566084398385987584"
    by (rule horner_step [OF u_s1_h7 u_s1_z0]) (simp_all add: u_s1_zv)
  have u_s1_b: "u_s1_x * (78970981033225178419538892531 / 79228162514264337593543950336) - 1 / 1267650600228229401496703205376 \<le> sin u_s1_x \<and> sin u_s1_x \<le> u_s1_x * (19742745258306294604884723133 / 19807040628566084398385987584) + 1 / 1267650600228229401496703205376"
    by (rule sin_between [OF _ u_s1_h8 [unfolded u_s1_z_def] sin_poly_19]) (simp_all add: u_s1_x_def fact_numeral power_divide)
  have u_s1_r: "rnd64 (sin u_s1_x) = Fin (5014239404989977 / 36028797018963968)" "rnd64 (- sin u_s1_x) = Fin (- (5014239404989977 / 36028797018963968))"
    by (rule rnd64_between [OF u_s1_b, where k = "-3" and n = "5014239404989977"]; simp add: u_s1_x_def)+
  have u_s1: "u_s1 = Fin (- (5014239404989977 / 36028797018963968))"
    unfolding u_s1_def u_h1 b64_sin_def using u_s1_r [unfolded u_s1_x_def] by simp
  define u_q1 where "u_q1 = b64_sq u_s1"
  have u_q1: "u_q1 = Fin (1395694493897217 / 72057594037927936)"
    unfolding u_q1_def u_s1 b64_sq_def
    by (simp add: js_sub_def PI64_def, rule rnd64I [where k = "-6" and n = "5582777975588868"], simp_all add: power2_eq_square)
  define u_h2 where "u_h2 = b64_div u_dLon (Fin 2)"
  have u_h2: "u_h2 = Fin (884279719003555 / 562949953421312)"
    unfolding u_h2_def u_dLon b64_div_def
    by (simp add: js_sub_def PI64_def, rule rnd64I [where k = "0" and n = "7074237752028440"], simp_all add: power2_eq_square)
  define u_s2 where "u_s2 = b64_sin u_h2"
  define u_s2_x :: real where "u_s2_x = 884279719003555 / 562949953421312"
  define u_s2_z :: real where "u_s2_z = u_s2_x\<^sup>2"
  have u_s2_z0: "0 \<le> u_s2_z" unfolding u_s2_z_def by simp
  have u_s2_zv: "u_s2_z = 781950621441006189802102638025 / 316912650057057350374175801344" unfolding u_s2_z_def u_s2_x_def by (simp add: power2_eq_square)
  have u_s2_h0: "1 \<le> horner [] u_s2_z \<and> horner [] u_s2_z \<le> 1" by simp
  have u_s2_h1: "79017960734307077865102524895 / 79228162514264337593543950336 \<le> horner [930] u_s2_z \<and> horner [930] u_s2_z \<le> 2469311272947096183284453903 / 2475880078570760549798248448"
    by (rule horner_step [OF u_s2_h0 u_s2_z0]) (simp_all add: u_s2_zv)
  have u_s2_h2: "78988052904341793504130345917 / 79228162514264337593543950336 \<le> horner [812, 930] u_s2_z \<and> horner [812, 930] u_s2_z \<le> 39494026452170896752065172959 / 39614081257132168796771975168"
    by (rule horner_step [OF u_s2_h1 u_s2_z0]) (simp_all add: u_s2_zv)
  have u_s2_h3: "78950534011921684174843895225 / 79228162514264337593543950336 \<le> horner [702, 812, 930] u_s2_z \<and> horner [702, 812, 930] u_s2_z \<le> 39475267005960842087421947613 / 39614081257132168796771975168"
    by (rule horner_step [OF u_s2_h2 u_s2_z0]) (simp_all add: u_s2_zv)
  have u_s2_h4: "78903491456784163722491870845 / 79228162514264337593543950336 \<le> horner [600, 702, 812, 930] u_s2_z \<and> horner [600, 702, 812, 930] u_s2_z \<le> 39451745728392081861245935423 / 39614081257132168796771975168"
    by (rule horner_step [OF u_s2_h3 u_s2_z0]) (simp_all add: u_s2_zv)
  have u_s2_h5: "39421703231800352213301947019 / 39614081257132168796771975168 \<le> horner [506, 600, 702, 812, 930] u_s2_z \<and> horner [506, 600, 702, 812, 930] u_s2_z \<le> 78843406463600704426603894039 / 79228162514264337593543950336"
    by (rule horner_step [OF u_s2_h4 u_s2_z0]) (simp_all add: u_s2_zv)
  have u_s2_h6: "39382488033492278726547628873 / 39614081257132168796771975168 \<le> horner [420, 506, 600, 702, 812, 930] u_s2_z \<and> horner [420, 506, 600, 702, 812, 930] u_s2_z \<le> 78764976066984557453095257747 / 79228162514264337593543950336"
    by (rule horner_step [OF u_s2_h5 u_s2_z0]) (simp_all add: u_s2_zv)
  have u_s2_h7: "19664975724610965844309811903 / 19807040628566084398385987584 \<le> horner [342, 420, 506, 600, 702, 812, 930] u_s2_z \<and> horner [342, 420, 506, 600, 702, 812, 930] u_s2_z \<le> 78659902898443863377239247613 / 79228162514264337593543950336"
    by (rule horner_step [OF u_s2_h6 u_s2_z0]) (simp_all add: u_s2_zv)
  have u_s2_h8: "78514612768091779606601116393 / 79228162514264337593543950336 \<le> horner [272, 342, 420, 506, 600, 702, 812, 930] u_s2_z \<and> horner [272, 342, 420, 506, 600, 702, 812, 930] u_s2_z \<le> 39257306384045889803300558197 / 39614081257132168796771975168"
    by (rule horner_step [OF u_s2_h7 u_s2_z0]) (simp_all add: u_s2_zv)
  have u_s2_h9: "78305652790781259834832033483 / 79228162514264337593543950336 \<le> horner [210, 272, 342, 420, 506, 600, 702, 812, 930] u_s2_z \<and> horner [210, 272, 342, 420, 506, 600, 702, 812, 930] u_s2_z \<le> 19576413197695314958708008371 / 19807040628566084398385987584"
    by (rule horner_step [OF u_s2_h8 u_s2_z0]) (simp_all add: u_s2_zv)
  have u_s2_h10: "77989627553664866633574744535 / 79228162514264337593543950336 \<le> horner [156, 210, 272, 342, 420, 506, 600, 702, 812, 930] u_s2_z \<and> horner [156, 210, 272, 342, 420, 506, 600, 702, 812, 930] u_s2_z \<le> 9748703444208108329196843067 / 9903520314283042199192993792"
    by (rule horner_step [OF u_s2_h9 u_s2_z0]) (simp_all add: u_s2_zv)
  have u_s2_h11: "38739391744242429459502799221 / 39614081257132168796771975168 \<le> horner [110, 156, 210, 272, 342, 420, 506, 600, 702, 812, 930] u_s2_z \<and> horner [110, 156, 210, 272, 342, 420, 506, 600, 702, 812, 930] u_s2_z \<le> 19369695872121214729751399611 / 19807040628566084398385987584"
    by (rule horner_step [OF u_s2_h10 u_s2_z0]) (simp_all add: u_s2_zv)
  have u_s2_h12: "9571625807985733330324537517 / 9903520314283042199192993792 \<le> horner [72, 110, 156, 210, 272, 342, 420, 506, 600, 702, 812, 930] u_s2_z \<and> horner [72, 110, 156, 210, 272, 342, 420, 506, 600, 702, 812, 930] u_s2_z \<le> 76573006463885866642596300137 / 79228162514264337593543950336"
    by (rule horner_step [OF u_s2_h11 u_s2_z0]) (simp_all add: u_s2_zv)
  have u_s2_h13: "291912807403176081649014093 / 309485009821345068724781056 \<le> horner [42, 72, 110, 156, 210, 272, 342, 420, 506, 600, 702, 812, 930] u_s2_z \<and> horner [42, 72, 110, 156, 210, 272, 342, 420, 506, 600, 702, 812, 930] u_s2_z \<le> 74729678695213076902147607809 / 79228162514264337593543950336"
    by (rule horner_step [OF u_s2_h12 u_s2_z0]) (simp_all add: u_s2_zv)
  have u_s2_h14: "35004378971242990016783101033 / 39614081257132168796771975168 \<le> horner [20, 42, 72, 110, 156, 210, 272, 342, 420, 506, 600, 702, 812, 930] u_s2_z \<and> horner [20, 42, 72, 110, 156, 210, 272, 342, 420, 506, 600, 702, 812, 930] u_s2_z \<le> 70008757942485980033566202067 / 79228162514264337593543950336"
    by (rule horner_step [OF u_s2_h13 u_s2_z0]) (simp_all add: u_s2_zv)
  have u_s2_h15: "50438214784932705699101305269 / 79228162514264337593543950336 \<le> horner [6, 20, 42, 72, 110, 156, 210, 272, 342, 420, 506, 600, 702, 812, 930] u_s2_z \<and> horner [6, 20, 42, 72, 110, 156, 210, 272, 342, 420, 506, 600, 702, 812, 930] u_s2_z \<le> 50438214784932705699101305271 / 79228162514264337593543950336"
    by (rule horner_step [OF u_s2_h14 u_s2_z0]) (simp_all add: u_s2_zv)
  have u_s2_b: "u_s2_x * (50438214784932705699101305269 / 79228162514264337593543950336) - 1 / 1267650600228229401496703205376 \<le> sin u_s2_x \<and> sin u_s2_x \<le> u_s2_x * (50438214784932705699101305271 / 79228162514264337593543950336) + 1 / 1267650600228229401496703205376"
    by (rule sin_between [OF _ u_s2_h15 [unfolded u_s2_z_def] sin_poly_33]) (simp_all add: u_s2_x_def fact_numeral power_divide)
  have u_s2_lb: "1 - 1 / 2 ^ 54 < u_s2_x * (50438214784932705699101305269 / 79228162514264337593543950336) - 1 / 1267650600228229401496703205376" unfolding u_s2_x_def by simp
  have u_s2_r: "rnd64 (sin u_s2_x) = Fin 1"
    by (rule rnd64_below_one) (use u_s2_b u_s2_lb in linarith, simp)
  have u_s2: "u_s2 = Fin 1"
    unfolding u_s2_def u_h2 b64_sin_def using u_s2_r [unfolded u_s2_x_def] by simp
  define u_q2 where "u_q2 = b64_sq u_s2"
  have u_q2: "u_q2 = Fin 1"
    unfolding u_q2_def u_s2 b64_sq_def
    by (simp add: js_sub_def PI64_def, rule rnd64I [where k = "0" and n = "4503599627370496"], simp_all add: power2_eq_square)
  define u_c1 where "u_c1 = b64_cos u_oLat"
  define u_c1_x :: real where "u_c1_x = 5030569068109113 / 36028797018963968"
  define u_c1_z :: real where "u_c1_z = u_c1_x\<^sup>2"
  have u_c1_z0: "0 \<le> u_c1_z" unfolding u_c1_z_def by simp
  have u_c1_zv: "u_c1_z = 25306625149016189589445273646769 / 1298074214633706907132624082305024" unfolding u_c1_z_def u_c1_x_def by (simp add: power2_eq_square)
  have u_c1_h0: "1 \<le> horner [] u_c1_z \<and> horner [] u_c1_z \<le> 1" by simp
  have u_c1_h1: "39610863353340230499552451385 / 39614081257132168796771975168 \<le> horner [240] u_c1_z \<and> horner [240] u_c1_z \<le> 79221726706680460999104902771 / 79228162514264337593543950336"
    by (rule horner_step [OF u_c1_h0 u_c1_z0]) (simp_all add: u_c1_zv)
  have u_c1_h2: "39609838212212531559861713699 / 39614081257132168796771975168 \<le> horner [182, 240] u_c1_z \<and> horner [182, 240] u_c1_z \<le> 79219676424425063119723427399 / 79228162514264337593543950336"
    by (rule horner_step [OF u_c1_h1 u_c1_z0]) (simp_all add: u_c1_zv)
  have u_c1_h3: "9902057787408572725789865517 / 9903520314283042199192993792 \<le> horner [132, 182, 240] u_c1_z \<and> horner [132, 182, 240] u_c1_z \<le> 79216462299268581806318924137 / 79228162514264337593543950336"
    by (rule horner_step [OF u_c1_h2 u_c1_z0]) (simp_all add: u_c1_zv)
  have u_c1_h4: "79211002895170837666601416199 / 79228162514264337593543950336 \<le> horner [90, 132, 182, 240] u_c1_z \<and> horner [90, 132, 182, 240] u_c1_z \<le> 9901375361896354708325177025 / 9903520314283042199192993792"
    by (rule horner_step [OF u_c1_h3 u_c1_z0]) (simp_all add: u_c1_zv)
  have u_c1_h5: "9900073306951521564270239407 / 9903520314283042199192993792 \<le> horner [56, 90, 132, 182, 240] u_c1_z \<and> horner [56, 90, 132, 182, 240] u_c1_z \<le> 79200586455612172514161915257 / 79228162514264337593543950336"
    by (rule horner_step [OF u_c1_h4 u_c1_z0]) (simp_all add: u_c1_zv)
  have u_c1_h6: "79176693973908705124895435843 / 79228162514264337593543950336 \<le> horner [30, 56, 90, 132, 182, 240] u_c1_z \<and> horner [30, 56, 90, 132, 182, 240] u_c1_z \<le> 19794173493477176281223858961 / 19807040628566084398385987584"
    by (rule horner_step [OF u_c1_h5 u_c1_z0]) (simp_all add: u_c1_zv)
  have u_c1_h7: "79099529979727943415949538541 / 79228162514264337593543950336 \<le> horner [12, 30, 56, 90, 132, 182, 240] u_c1_z \<and> horner [12, 30, 56, 90, 132, 182, 240] u_c1_z \<le> 39549764989863971707974769271 / 39614081257132168796771975168"
    by (rule horner_step [OF u_c1_h6 u_c1_z0]) (simp_all add: u_c1_zv)
  have u_c1_h8: "39228559741471910747640273335 / 39614081257132168796771975168 \<le> horner [2, 12, 30, 56, 90, 132, 182, 240] u_c1_z \<and> horner [2, 12, 30, 56, 90, 132, 182, 240] u_c1_z \<le> 78457119482943821495280546671 / 79228162514264337593543950336"
    by (rule horner_step [OF u_c1_h7 u_c1_z0]) (simp_all add: u_c1_zv)
  have u_c1_b: "39228559741471910747640273335 / 39614081257132168796771975168 - 1 / 1267650600228229401496703205376 \<le> cos u_c1_x \<and> cos u_c1_x \<le> 78457119482943821495280546671 / 79228162514264337593543950336 + 1 / 1267650600228229401496703205376"
    by (rule cos_between [OF u_c1_h8 [unfolded u_c1_z_def] cos_poly_18]) (simp_all add: u_c1_x_def fact_numeral power_divide)
  have u_c1_r: "rnd64 (cos u_c1_x) = Fin (4459770905381437 / 4503599627370496)" "rnd64 (- cos u_c1_x) = Fin (- (4459770905381437 / 4503599627370496))"
    by (rule rnd64_between [OF u_c1_b, where k = "-1" and n = "8919541810762874"]; simp add: u_c1_x_def)+
  have u_c1: "u_c1 = Fin (4459770905381437 / 4503599627370496)"
    unfolding u_c1_def u_oLat b64_cos_def using u_c1_r [unfolded u_c1_x_def] by simp
  define u_c2 where "u_c2 = b64_cos u_eLat"
  define u_c2_x :: real where "u_c2_x = 5030569068109113 / 36028797018963968"
  define u_c2_z :: real where "u_c2_z = u_c2_x\<^sup>2"
  have u_c2_z0: "0 \<le> u_c2_z" unfolding u_c2_z_def by simp
  have u_c2_zv: "u_c2_z = 25306625149016189589445273646769 / 1298074214633706907132624082305024" unfolding u_c2_z_def u_c2_x_def by (simp add: power2_eq_square)
  have u_c2_h0: "1 \<le> horner [] u_c2_z \<and> horner [] u_c2_z \<le> 1" by simp
  have u_c2_h1: "39610863353340230499552451385 / 39614081257132168796771975168 \<le> horner [240] u_c2_z \<and> horner [240] u_c2_z \<le> 79221726706680460999104902771 / 79228162514264337593543950336"
    by (rule horner_step [OF u_c2_h0 u_c2_z0]) (simp_all add: u_c2_zv)
  have u_c2_h2: "39609838212212531559861713699 / 39614081257132168796771975168 \<le> horner [182, 240] u_c2_z \<and> horner [182, 240] u_c2_z \<le> 79219676424425063119723427399 / 79228162514264337593543950336"
    by (rule horner_step [OF u_c2_h1 u_c2_z0]) (simp_all add: u_c2_zv)
  have u_c2_h3: "9902057787408572725789865517 / 9903520314283042199192993792 \<le> horner [132, 182, 240] u_c2_z \<and> horner [132, 182, 240] u_c2_z \<le> 79216462299268581806318924137 / 79228162514264337593543950336"
    by (rule horner_step [OF u_c2_h2 u_c2_z0]) (simp_all add: u_c2_zv)
  have u_c2_h4: "79211002895170837666601416199 / 79228162514264337593543950336 \<le> horner [90, 132, 182, 240] u_c2_z \<and> horner [90, 132, 182, 240] u_c2_z \<le> 9901375361896354708325177025 / 9903520314283042199192993792"
    by (rule horner_step [OF u_c2_h3 u_c2_z0]) (simp_all add: u_c2_zv)
  have u_c2_h5: "9900073306951521564270239407 / 9903520314283042199192993792 \<le> horner [56, 90, 132, 182, 240] u_c2_z \<and> horner [56, 90, 132, 182, 240] u_c2_z \<le> 79200586455612172514161915257 / 79228162514264337593543950336"
    by (rule horner_step [OF u_c2_h4 u_c2_z0]) (simp_all add: u_c2_zv)
  have u_c2_h6: "79176693973908705124895435843 / 79228162514264337593543950336 \<le> horner [30, 56, 90, 132, 182, 240] u_c2_z \<and> horner [30, 56, 90, 132, 182, 240] u_c2_z \<le> 19794173493477176281223858961 / 19807040628566084398385987584"
    by (rule horner_step [OF u_c2_h5 u_c2_z0]) (simp_all add: u_c2_zv)
  have u_c2_h7: "79099529979727943415949538541 / 79228162514264337593543950336 \<le> horner [12, 30, 56, 90, 132, 182, 240] u_c2_z \<and> horner [12, 30, 56, 90, 132, 182, 240] u_c2_z \<le> 39549764989863971707974769271 / 39614081257132168796771975168"
    by (rule horner_step [OF u_c2_h6 u_c2_z0]) (simp_all add: u_c2_zv)
  have u_c2_h8: "39228559741471910747640273335 / 39614081257132168796771975168 \<le> horner [2, 12, 30, 56, 90, 132, 182, 240] u_c2_z \<and> horner [2, 12, 30, 56, 90, 132, 182, 240] u_c2_z \<le> 78457119482943821495280546671 / 79228162514264337593543950336"
    by (rule horner_step [OF u_c2_h7 u_c2_z0]) (simp_all add: u_c2_zv)
  have u_c2_b: "39228559741471910747640273335 / 39614081257132168796771975168 - 1 / 1267650600228229401496703205376 \<le> cos u_c2_x \<and> cos u_c2_x \<le> 78457119482943821495280546671 / 79228162514264337593543950336 + 1 / 1267650600228229401496703205376"
    by (rule cos_between [OF u_c2_h8 [unfolded u_c2_z_def] cos_poly_18]) (simp_all add: u_c2_x_def fact_numeral power_divide)
  have u_c2_r: "rnd64 (cos u_c2_x) = Fin (4459770905381437 / 4503599627370496)" "rnd64 (- cos u_c2_x) = Fin (- (4459770905381437 / 4503599627370496))"
    by (rule rnd64_between [OF u_c2_b, where k = "-1" and n = "8919541810762874"]; simp add: u_c2_x_def)+
  have u_c2: "u_c2 = Fin (4459770905381437 / 4503599627370496)"
    unfolding u_c2_def u_eLat b64_cos_def using u_c2_r [unfolded u_c2_x_def] by simp
  define u_m1 where "u_m1 = b64_mul u_q2 u_c1"
  have u_m1: "u_m1 = Fin (4459770905381437 / 4503599627370496)"
    unfolding u_m1_def u_q2 u_c1 b64_mul_def
    by (simp add: js_sub_def PI64_def, rule rnd64I [where k = "-1" and n = "8919541810762874"], simp_all add: power2_eq_square)
  define u_m2 where "u_m2 = b64_mul u_m1 u_c2"
  have u_m2: "u_m2 = Fin (8832737443003841 / 9007199254740992)"
    unfolding u_m2_def u_m1 u_c2 b64_mul_def
    by (simp add: js_sub_def PI64_def, rule rnd64I [where k = "-1" and n = "8832737443003841"], simp_all add: power2_eq_square)
  define u_a where "u_a = b64_add u_q1 u_m2"
  have u_a: "u_a = Fin (4503599627370497 / 4503599627370496)"
    unfolding u_a_def u_q1 u_m2 b64_add_def
    by (simp add: js_sub_def PI64_def, rule rnd64I [where k = "0" and n = "4503599627370497"], simp_all add: power2_eq_square)
  have "haversine_a64 \<lparr>origin = \<lparr>latitude = Fin 8, longitude = Fin 0\<rparr>, destination = \<lparr>latitude = Fin (- 8), longitude = Fin 180\<rparr>\<rparr> = u_a"
    unfolding haversine_a64_def toRadians64_def Let_def
      u_dlat_def u_dLatm_def u_dLat_def u_dlon_def u_dLonm_def u_dLon_def u_oLatm_def u_oLat_def u_eLatm_def u_eLat_def u_h1_def u_s1_def u_q1_def u_h2_def u_s2_def u_q2_def u_c1_def u_c2_def u_m1_def u_m2_def u_a_def
    by simp
  then show ?thesis by (simp only: u_a)
qed

lemma distance64_near_antipodal:
  "calculateHaversineDistanceKm64
     \<lparr>origin = \<lparr>latitude = Fin 8, longitude = Fin 0\<rparr>,
      destination = \<lparr>latitude = Fin (- 8), longitude = Fin 180\<rparr>\<rparr> = NaN"
proof -
  have "b64_sub (Fin 1) (Fin (4503599627370497 / 4503599627370496)) =
      Fin (- (1 / 4503599627370496))"
    using rnd64_minus_ulp_of_one by (simp add: b64_sub_def js_sub_def)
  then have "b64_sqrt (b64_sub (Fin 1) (Fin (4503599627370497 / 4503599627370496))) = NaN"
    by (simp add: b64_sqrt_def)
  then show ?thesis
    by (simp add: calculateHaversineDistanceKm64_def isLatitudeInRange_iff isLongitudeInRange_iff
        haversine_a64_near_antipodal Let_def b64_atan2_def b64_mul_def js_atan2_NaN_right
        EARTH_RADIUS_KM_def)
qed

section \<open>Claims about calculateHaversineDistanceKm\<close>

text \<open>
  C4. \<^verbatim>\<open>calculateHaversineDistanceKm\<close> should return NaN exactly when one of the four
  inputs is not finite or lies outside its range. The guard gives NaN on every such
  input, but the code also returns NaN on valid input: at the origin (8, 0) and the
  destination (-8, 180) all four numbers are in range and the binary64 result is NaN.
\<close>

theorem valid_input_gives_nan:
  "in_range (- 90) 90 (Fin 8) \<and> in_range (- 180) 180 (Fin 0) \<and>
   in_range (- 90) 90 (Fin (- 8)) \<and> in_range (- 180) 180 (Fin 180) \<and>
   js_isNaN (calculateHaversineDistanceKm64
     \<lparr>origin = \<lparr>latitude = Fin 8, longitude = Fin 0\<rparr>,
      destination = \<lparr>latitude = Fin (- 8), longitude = Fin 180\<rparr>\<rparr>)"
  by (simp add: distance64_near_antipodal)

theorem valid_input_gives_nan_witness:
  "js_isNaN (calculateHaversineDistanceKm64
     \<lparr>origin = \<lparr>latitude = Fin 8, longitude = Fin 0\<rparr>,
      destination = \<lparr>latitude = Fin (- 8), longitude = Fin 180\<rparr>\<rparr>)"
  using valid_input_gives_nan by simp

text \<open>
  C9. On valid coordinates the distance should be finite and not negative, with the
  intermediate value \<^verbatim>\<open>a\<close> in [0, 1]. At the origin (8, 0) and the destination (-8, 180)
  the binary64 value of \<^verbatim>\<open>a\<close> is \<open>1 + 2\<^sup>-\<^sup>5\<^sup>2\<close>, so \<^verbatim>\<open>Math.sqrt(1 - a)\<close> is NaN and so is
  the result: it is neither finite nor at least 0.
\<close>

theorem near_antipodal_distance_not_finite:
  "valid_coordinate \<lparr>latitude = Fin 8, longitude = Fin 0\<rparr> \<and>
   valid_coordinate \<lparr>latitude = Fin (- 8), longitude = Fin 180\<rparr> \<and>
   haversine_a64
     \<lparr>origin = \<lparr>latitude = Fin 8, longitude = Fin 0\<rparr>,
      destination = \<lparr>latitude = Fin (- 8), longitude = Fin 180\<rparr>\<rparr> =
     Fin (1 + 1 / 2 ^ 52) \<and>
   \<not> in_range 0 1 (haversine_a64
     \<lparr>origin = \<lparr>latitude = Fin 8, longitude = Fin 0\<rparr>,
      destination = \<lparr>latitude = Fin (- 8), longitude = Fin 180\<rparr>\<rparr>) \<and>
   \<not> js_isFinite (calculateHaversineDistanceKm64
     \<lparr>origin = \<lparr>latitude = Fin 8, longitude = Fin 0\<rparr>,
      destination = \<lparr>latitude = Fin (- 8), longitude = Fin 180\<rparr>\<rparr>) \<and>
   \<not> js_le (Fin 0) (calculateHaversineDistanceKm64
     \<lparr>origin = \<lparr>latitude = Fin 8, longitude = Fin 0\<rparr>,
      destination = \<lparr>latitude = Fin (- 8), longitude = Fin 180\<rparr>\<rparr>)"
  by (simp add: valid_coordinate_def distance64_near_antipodal haversine_a64_near_antipodal)

theorem near_antipodal_distance_not_finite_witness:
  "\<not> js_isFinite (calculateHaversineDistanceKm64
     \<lparr>origin = \<lparr>latitude = Fin 8, longitude = Fin 0\<rparr>,
      destination = \<lparr>latitude = Fin (- 8), longitude = Fin 180\<rparr>\<rparr>) \<and>
   \<not> in_range 0 1 (haversine_a64
     \<lparr>origin = \<lparr>latitude = Fin 8, longitude = Fin 0\<rparr>,
      destination = \<lparr>latitude = Fin (- 8), longitude = Fin 180\<rparr>\<rparr>)"
  using near_antipodal_distance_not_finite by simp

text \<open>
  C8. Identity: for a valid coordinate P, the distance from P to P is exactly 0.
\<close>

theorem distance_identity:
  assumes "valid_coordinate P"
  shows "calculateHaversineDistanceKm \<lparr>origin = P, destination = P\<rparr> = Fin 0"
proof -
  from assms obtain lat lon where P: "latitude P = Fin lat" "longitude P = Fin lon"
    "- 90 \<le> lat" "lat \<le> 90" "- 180 \<le> lon" "lon \<le> 180"
    by (rule valid_coordinateE)
  have "calculateHaversineDistanceKm \<lparr>origin = P, destination = P\<rparr> =
      Fin (6371 * (2 * arcsin (sqrt (hav_real lat lon lat lon))))"
    by (rule distance_eq) (simp_all add: P)
  then show ?thesis by (simp add: hav_real_same)
qed

theorem distance_identity_witness:
  "valid_coordinate \<lparr>latitude = Fin 37.5665, longitude = Fin 126.978\<rparr> \<and>
   calculateHaversineDistanceKm
     \<lparr>origin = \<lparr>latitude = Fin 37.5665, longitude = Fin 126.978\<rparr>,
      destination = \<lparr>latitude = Fin 37.5665, longitude = Fin 126.978\<rparr>\<rparr> = Fin 0"
proof -
  have v: "valid_coordinate \<lparr>latitude = Fin 37.5665, longitude = Fin 126.978\<rparr>"
    by (simp add: valid_coordinate_def)
  show ?thesis using v distance_identity [OF v] by simp
qed


section \<open>Claims about computeBoundingBox\<close>

text \<open>
  C1. Containment: every valid point within \<^verbatim>\<open>radiusKm\<close> of a valid center should lie in
  the returned box. The code misses points across the antimeridian: for the center
  (0, 179.9) and a radius of 100 km, the point (0, -179.9) is valid and about 22 km away
  (\<open>6371 pi / 900\<close>), and it is outside the box, whose western bound lies beyond 178.
\<close>

theorem antimeridian_point_outside_box:
  "valid_coordinate \<lparr>latitude = Fin 0, longitude = Fin 179.9\<rparr> \<and>
   valid_coordinate \<lparr>latitude = Fin 0, longitude = Fin (- 179.9)\<rparr> \<and>
   js_le (calculateHaversineDistanceKm
            \<lparr>origin = \<lparr>latitude = Fin 0, longitude = Fin 179.9\<rparr>,
             destination = \<lparr>latitude = Fin 0, longitude = Fin (- 179.9)\<rparr>\<rparr>) (Fin 100) \<and>
   \<not> js_le (minLongitude (computeBoundingBox
              \<lparr>center = \<lparr>latitude = Fin 0, longitude = Fin 179.9\<rparr>, radiusKm = Fin 100\<rparr>))
            (Fin (- 179.9)) \<and>
   \<not> box_contains (computeBoundingBox
         \<lparr>center = \<lparr>latitude = Fin 0, longitude = Fin 179.9\<rparr>, radiusKm = Fin 100\<rparr>)
       \<lparr>latitude = Fin 0, longitude = Fin (- 179.9)\<rparr>"
proof -
  have "6371 * pi / 900 \<le> 6371 * 4 / 900" using pi_less_4 by simp
  then have d: "6371 * pi / 900 \<le> 100" by simp
  have w: "\<not> 179.9 - 100 / 6371 * 180 / pi \<le> - 179.9"
    using half_width_100 by linarith
  show ?thesis
    unfolding distance_across_antimeridian antimeridian_box
    using d w by (simp add: valid_coordinate_def box_contains_def)
qed

theorem antimeridian_point_outside_box_witness:
  "js_le (calculateHaversineDistanceKm
            \<lparr>origin = \<lparr>latitude = Fin 0, longitude = Fin 179.9\<rparr>,
             destination = \<lparr>latitude = Fin 0, longitude = Fin (- 179.9)\<rparr>\<rparr>) (Fin 100) \<and>
   \<not> box_contains (computeBoundingBox
         \<lparr>center = \<lparr>latitude = Fin 0, longitude = Fin 179.9\<rparr>, radiusKm = Fin 100\<rparr>)
       \<lparr>latitude = Fin 0, longitude = Fin (- 179.9)\<rparr>"
  using antimeridian_point_outside_box by simp

text \<open>
  Away from the antimeridian the box does contain the circle: a valid point within the
  radius whose longitude differs from the center's by at most 180 degrees lies in the
  box, in every branch and for every radius.
\<close>

proposition box_contains_unwrapped_points:
  assumes c: "valid_coordinate (center p)" and q: "valid_coordinate q"
    and within: "js_le (calculateHaversineDistanceKm \<lparr>origin = center p, destination = q\<rparr>)
                   (radiusKm p)"
    and unwrapped: "in_range (- 180) 180 (js_sub (longitude q) (longitude (center p)))"
  shows "box_contains (computeBoundingBox p) q"
proof -
  from c obtain lat1 lon1 where C: "latitude (center p) = Fin lat1"
    "longitude (center p) = Fin lon1" "- 90 \<le> lat1" "lat1 \<le> 90" "- 180 \<le> lon1" "lon1 \<le> 180"
    by (rule valid_coordinateE)
  from q obtain lat2 lon2 where Q: "latitude q = Fin lat2" "longitude q = Fin lon2"
    "- 90 \<le> lat2" "lat2 \<le> 90" "- 180 \<le> lon2" "lon2 \<le> 180"
    by (rule valid_coordinateE)
  let ?a = "hav_real lat1 lon1 lat2 lon2"
  define \<theta> where "\<theta> = 2 * arcsin (sqrt ?a)"
  have a0: "0 \<le> ?a" using C(3,4) Q(3,4) by (rule hav_real_nonneg)
  have a1: "?a \<le> 1" using C(3,4) Q(3,4) by (rule hav_real_le_1)
  have dist: "calculateHaversineDistanceKm \<lparr>origin = center p, destination = q\<rparr> =
      Fin (6371 * \<theta>)"
    unfolding \<theta>_def by (rule distance_eq) (simp_all add: C Q)
  have th0: "0 \<le> \<theta>" unfolding \<theta>_def using a0 a1 by (rule central_angle(2))
  have law: "cos \<theta> = sin (lat1 * pi / 180) * sin (lat2 * pi / 180) +
      cos (lat1 * pi / 180) * cos (lat2 * pi / 180) * cos ((lon2 - lon1) * pi / 180)"
    unfolding \<theta>_def central_angle(1) [OF a0 a1] by (rule hav_law_of_cosines)
  have latb: "\<bar>lat2 * pi / 180 - lat1 * pi / 180\<bar> \<le> \<theta>"
    unfolding \<theta>_def using C(3,4) Q(3,4) by (rule hav_lat_bound)
  show ?thesis
  proof (cases "radiusKm p")
    case NaN
    with within show ?thesis by (simp add: dist)
  next
    case NegInf
    with within show ?thesis by (simp add: dist)
  next
    case PosInf
    then show ?thesis
      using box_posinf_radius [OF c PosInf] Q by (simp add: box_contains_def)
  next
    case (Fin x)
    define s where "s = max x (1 / 10)"
    define g where "g = s / 6371"
    have s: "js_max (radiusKm p) (Fin (1 / 10)) = Fin s"
      by (simp add: Fin s_def safeRadius_cases)
    have s0: "0 < s" unfolding s_def by simp
    have g0: "0 < g" unfolding g_def using s0 by simp
    from within have "6371 * \<theta> \<le> x" by (simp add: dist Fin)
    then have "6371 * \<theta> \<le> s" unfolding s_def by simp
    then have thg: "\<theta> \<le> g" unfolding g_def by (simp add: field_simps)
    have "\<bar>(lat2 - lat1) * pi / 180\<bar> \<le> g"
      using latb thg by (simp add: field_simps)
    note ld = deg_bound_of_rad [OF this]
    have lat_in: "lat_lo lat1 g \<le> lat2" "lat2 \<le> lat_hi lat1 g"
      unfolding lat_lo_def lat_hi_def deg_of_rad
      using clamp_keeps [OF Q(3,4)] ld by simp_all
    show ?thesis
    proof (cases "near_pole lat1 g")
      case True
      show ?thesis
        using box_pole_branch [OF C s True [unfolded g_def]] lat_in Q
        by (simp add: box_contains_def g_def)
    next
      case False
      note away = not_near_pole_rad [OF False]
      from unwrapped have "- 180 \<le> lon2 - lon1" "lon2 - lon1 \<le> 180"
        by (simp_all add: C Q js_sub_def)
      then have "\<bar>lon2 - lon1\<bar> * pi \<le> 180 * pi"
        by (intro mult_right_mono) simp_all
      then have w: "\<bar>(lon2 - lon1) * pi / 180\<bar> \<le> pi" by (simp add: abs_mult)
      have "\<bar>(lon2 - lon1) * pi / 180\<bar> \<le> arcsin (sin g / cos (lat1 * pi / 180))"
        using law th0 thg _ away g0 w
      proof (rule sphere_lon_bound)
        show "\<bar>lat2 * pi / 180 - lat1 * pi / 180\<bar> \<le> g" using latb thg by linarith
      qed
      then have "\<bar>(lon2 - lon1) * pi / 180\<bar> \<le> lon_delta lat1 g"
        by (simp only: lon_delta_def)
      note wd = deg_bound_of_rad [OF this]
      have lon_in: "lon_lo lat1 lon1 g \<le> lon2" "lon2 \<le> lon_hi lat1 lon1 g"
        unfolding lon_lo_def lon_hi_def deg_of_rad
        using clamp_keeps [OF Q(5,6)] wd by simp_all
      show ?thesis
        using box_lon_branch [OF C s s0 False [unfolded g_def]] lat_in lon_in Q
        by (simp add: box_contains_def g_def)
    qed
  qed
qed

lemma box_contains_unwrapped_points_instance:
  "box_contains (computeBoundingBox
       \<lparr>center = \<lparr>latitude = Fin 37.5665, longitude = Fin 126.978\<rparr>, radiusKm = Fin 25\<rparr>)
     \<lparr>latitude = Fin 37.5665, longitude = Fin 126.978\<rparr>"
proof -
  let ?c = "\<lparr>latitude = Fin 37.5665, longitude = Fin 126.978\<rparr>"
  have v: "valid_coordinate ?c" by (simp add: valid_coordinate_def)
  have "calculateHaversineDistanceKm \<lparr>origin = ?c, destination = ?c\<rparr> =
      Fin (6371 * (2 * arcsin (sqrt (hav_real 37.5665 126.978 37.5665 126.978))))"
    by (rule distance_eq) simp_all
  then have d: "calculateHaversineDistanceKm \<lparr>origin = ?c, destination = ?c\<rparr> = Fin 0"
    by (simp add: hav_real_same)
  show ?thesis
    using box_contains_unwrapped_points [of "\<lparr>center = ?c, radiusKm = Fin 25\<rparr>" ?c] v d
    by (simp add: js_sub_def)
qed

text \<open>
  Conversely, outside the pole branch a valid point whose longitude differs from the
  center's by more than 180 degrees is never in the box, however close it is.
\<close>

proposition wrapped_points_outside_box:
  assumes c: "valid_coordinate (center p)" and q: "valid_coordinate q"
    and r: "\<not> js_isNaN (radiusKm p)"
    and away: "\<not> js_le (clampedMinLatitude p) MIN_LATITUDE"
      "\<not> js_ge (clampedMaxLatitude p) MAX_LATITUDE"
    and wrapped: "\<not> in_range (- 180) 180 (js_sub (longitude q) (longitude (center p)))"
  shows "\<not> box_contains (computeBoundingBox p) q"
proof -
  from c obtain lat1 lon1 where C: "latitude (center p) = Fin lat1"
    "longitude (center p) = Fin lon1" "- 90 \<le> lat1" "lat1 \<le> 90" "- 180 \<le> lon1" "lon1 \<le> 180"
    by (rule valid_coordinateE)
  from q obtain lat2 lon2 where Q: "latitude q = Fin lat2" "longitude q = Fin lon2"
    "- 90 \<le> lat2" "lat2 \<le> 90" "- 180 \<le> lon2" "lon2 \<le> 180"
    by (rule valid_coordinateE)
  have "radiusKm p \<noteq> PosInf"
    using away(1) clamped_latitudes_posinf(1) [OF C(1)] by (auto simp: MIN_LATITUDE_def)
  moreover from r have "radiusKm p \<noteq> NaN" by (simp add: not_nan_iff)
  ultimately obtain s where s: "js_max (radiusKm p) (Fin (1 / 10)) = Fin s" "1 / 10 \<le> s"
    using safeRadius_finite [of "radiusKm p"] by blast
  let ?g = "s / 6371"
  have s0: "0 < s" using s(2) by simp
  then have g: "0 < ?g" by simp
  have np: "\<not> near_pole lat1 ?g"
    using away clamped_latitudes_finite [OF C(1) s(1)]
    by (simp add: near_pole_def js_ge_def MIN_LATITUDE_def MAX_LATITUDE_def)
  have d0: "0 \<le> lon_delta lat1 ?g * 180 / pi"
    using lon_delta_nonneg [OF np g] by simp
  note d1 = lon_delta_less_quarter [OF np g]
  from wrapped have far: "lon2 - lon1 < - 180 \<or> 180 < lon2 - lon1"
    by (auto simp: C Q js_sub_def)
  have "lon2 < lon_lo lat1 lon1 ?g \<or> lon_hi lat1 lon1 ?g < lon2"
    unfolding lon_lo_def lon_hi_def deg_of_rad
    using far d0 d1 C(5,6) Q(5,6) by linarith
  then show ?thesis
    using box_lon_branch [OF C s(1) s0 np] Q by (auto simp: box_contains_def)
qed

lemma wrapped_points_outside_box_instance:
  "\<not> box_contains (computeBoundingBox
         \<lparr>center = \<lparr>latitude = Fin 0, longitude = Fin 179.9\<rparr>, radiusKm = Fin 100\<rparr>)
       \<lparr>latitude = Fin 0, longitude = Fin (- 179.9)\<rparr>"
proof -
  let ?p = "\<lparr>center = \<lparr>latitude = Fin 0, longitude = Fin 179.9\<rparr>, radiusKm = Fin 100\<rparr>"
  have lat: "clampedMinLatitude ?p = Fin (lat_lo 0 (100 / 6371))"
    "clampedMaxLatitude ?p = Fin (lat_hi 0 (100 / 6371))"
    by (rule clamped_latitudes_finite; simp add: safeRadius_cases)+
  have np: "\<not> lat_lo 0 (100 / 6371) \<le> - 90" "\<not> 90 \<le> lat_hi 0 (100 / 6371)"
    using not_near_pole_equator_100 by (simp_all add: near_pole_def)
  show ?thesis
    using wrapped_points_outside_box [of ?p "\<lparr>latitude = Fin 0, longitude = Fin (- 179.9)\<rparr>"]
    by (simp add: valid_coordinate_def lat np js_ge_def MIN_LATITUDE_def MAX_LATITUDE_def
        js_sub_def)
qed

text \<open>
  C2. Antimeridian widening: when the center longitude plus the longitude half-width
  exceeds 180, the box should span all longitudes. The code clamps each bound instead:
  for the center (0, 179.9) and a radius of 100 km the eastern bound before clamping
  exceeds 180, the returned maximum is 180 and the returned minimum stays above 178,
  not -180.
\<close>

theorem antimeridian_box_truncated:
  "\<not> js_le (toDegrees (js_add (toRadians (Fin 179.9)) (deltaLongitude
       \<lparr>center = \<lparr>latitude = Fin 0, longitude = Fin 179.9\<rparr>, radiusKm = Fin 100\<rparr>)))
     MAX_LONGITUDE \<and>
   js_le (Fin 178) (minLongitude (computeBoundingBox
     \<lparr>center = \<lparr>latitude = Fin 0, longitude = Fin 179.9\<rparr>, radiusKm = Fin 100\<rparr>)) \<and>
   maxLongitude (computeBoundingBox
     \<lparr>center = \<lparr>latitude = Fin 0, longitude = Fin 179.9\<rparr>, radiusKm = Fin 100\<rparr>) = Fin 180 \<and>
   minLongitude (computeBoundingBox
     \<lparr>center = \<lparr>latitude = Fin 0, longitude = Fin 179.9\<rparr>, radiusKm = Fin 100\<rparr>) \<noteq> Fin (- 180)"
proof -
  let ?p = "\<lparr>center = \<lparr>latitude = Fin 0, longitude = Fin 179.9\<rparr>, radiusKm = Fin 100\<rparr>"
  have "deltaLongitude ?p = Fin (lon_delta 0 (100 / 6371))"
    by (rule deltaLongitude_finite [OF _ _ _ not_near_pole_equator_100])
      (simp_all add: safeRadius_cases)
  then have "deltaLongitude ?p = Fin (100 / 6371)"
    by (simp only: equator_lon_delta [OF g100])
  then have "toDegrees (js_add (toRadians (Fin 179.9)) (deltaLongitude ?p)) =
      Fin ((179.9 * pi / 180 + 100 / 6371) * 180 / pi)"
    by (simp add: toRadians_Fin toDegrees_Fin)
  moreover have "\<not> 179.9 + 100 / 6371 * 180 / pi \<le> 180"
    using half_width_100 by linarith
  ultimately have east: "\<not> js_le (toDegrees (js_add (toRadians (Fin 179.9)) (deltaLongitude ?p)))
      MAX_LONGITUDE"
    by (simp only: deg_of_rad MAX_LONGITUDE_def js_le.simps not_False_eq_True)
  have "178 \<le> 179.9 - 100 / 6371 * 180 / pi" "179.9 - 100 / 6371 * 180 / pi \<noteq> - 180"
    using half_width_100 by linarith+
  then show ?thesis using east unfolding antimeridian_box by simp
qed

theorem antimeridian_box_truncated_witness:
  "js_le (Fin 178) (minLongitude (computeBoundingBox
     \<lparr>center = \<lparr>latitude = Fin 0, longitude = Fin 179.9\<rparr>, radiusKm = Fin 100\<rparr>)) \<and>
   maxLongitude (computeBoundingBox
     \<lparr>center = \<lparr>latitude = Fin 0, longitude = Fin 179.9\<rparr>, radiusKm = Fin 100\<rparr>) = Fin 180"
  using antimeridian_box_truncated by simp

text \<open>
  C3. Well-formedness of the box. As stated, for every center and every radius, the claim
  fails for a valid center with the radius NaN: all four bounds are then NaN and no
  comparison holds. On every other input (an invalid center with any radius, NaN
  included, or a radius other than NaN) the returned box has
  \<open>minLatitude \<le> maxLatitude\<close>, \<open>minLongitude \<le> maxLongitude\<close>, latitudes in [-90, 90]
  and longitudes in [-180, 180]; the excluded inputs are exactly those on which it fails.
\<close>

theorem box_well_formed:
  "well_formed_box (computeBoundingBox p) \<longleftrightarrow>
     \<not> (valid_coordinate (center p) \<and> js_isNaN (radiusKm p))"
proof (cases "valid_coordinate (center p)")
  case False
  then show ?thesis by (simp add: box_invalid_center maximal_box_def well_formed_box_def)
next
  case True
  show ?thesis
  proof (cases "js_isNaN (radiusKm p)")
    case nan: True
    then have "radiusKm p = NaN" using not_nan_iff [of "radiusKm p"] by blast
    with True nan show ?thesis by (simp add: box_nan_radius well_formed_box_def)
  next
    case False
    then have r: "radiusKm p \<noteq> NaN" by (simp add: not_nan_iff)
    from True obtain lat lon where c: "latitude (center p) = Fin lat"
      "longitude (center p) = Fin lon" "- 90 \<le> lat" "lat \<le> 90" "- 180 \<le> lon" "lon \<le> 180"
      by (rule valid_coordinateE)
    from c r obtain lo hi west east where
      "computeBoundingBox p =
         \<lparr>minLatitude = Fin lo, maxLatitude = Fin hi,
          minLongitude = Fin west, maxLongitude = Fin east\<rparr>"
      "- 90 \<le> lo" "lo \<le> lat" "lat \<le> hi" "hi \<le> 90"
      "- 180 \<le> west" "west \<le> lon" "lon \<le> east" "east \<le> 180"
      by (rule box_valid_center)
    then show ?thesis using False by (simp add: well_formed_box_def)
  qed
qed

theorem box_well_formed_witness:
  "well_formed_box (computeBoundingBox
     \<lparr>center = \<lparr>latitude = Fin 37.5665, longitude = Fin 126.978\<rparr>, radiusKm = Fin 25\<rparr>) \<and>
   well_formed_box (computeBoundingBox
     \<lparr>center = \<lparr>latitude = Fin 120, longitude = Fin 0\<rparr>, radiusKm = NaN\<rparr>) \<and>
   well_formed_box (computeBoundingBox
     \<lparr>center = \<lparr>latitude = Fin 37.5665, longitude = Fin 126.978\<rparr>, radiusKm = NegInf\<rparr>)"
  using
    box_well_formed [of "\<lparr>center = \<lparr>latitude = Fin 37.5665, longitude = Fin 126.978\<rparr>,
      radiusKm = Fin 25\<rparr>"]
    box_well_formed [of "\<lparr>center = \<lparr>latitude = Fin 120, longitude = Fin 0\<rparr>,
      radiusKm = NaN\<rparr>"]
    box_well_formed [of "\<lparr>center = \<lparr>latitude = Fin 37.5665, longitude = Fin 126.978\<rparr>,
      radiusKm = NegInf\<rparr>"]
  by (simp add: valid_coordinate_def)

theorem nan_radius_box_not_well_formed:
  "\<not> well_formed_box (computeBoundingBox
     \<lparr>center = \<lparr>latitude = Fin 37.5665, longitude = Fin 126.978\<rparr>, radiusKm = NaN\<rparr>)"
proof -
  have "valid_coordinate (center
     \<lparr>center = \<lparr>latitude = Fin 37.5665, longitude = Fin 126.978\<rparr>, radiusKm = NaN\<rparr>)"
    by (simp add: valid_coordinate_def)
  then show ?thesis by (simp add: box_nan_radius well_formed_box_def)
qed


text \<open>
  C5. Invalid-center fallback: when the latitude of the center is not a finite number in
  [-90, 90] or its longitude is not a finite number in [-180, 180], the result is the
  whole-globe box, whatever the radius. The function is total: no input makes it throw.
\<close>

theorem invalid_center_fallback:
  assumes "\<not> in_range (- 90) 90 (latitude (center p)) \<or>
           \<not> in_range (- 180) 180 (longitude (center p))"
  shows "computeBoundingBox p =
    \<lparr>minLatitude = Fin (- 90), maxLatitude = Fin 90,
     minLongitude = Fin (- 180), maxLongitude = Fin 180\<rparr>"
  using assms box_invalid_center [of p] by (auto simp: valid_coordinate_def maximal_box_def)

theorem invalid_center_fallback_witness:
  "\<not> in_range (- 90) 90 (Fin 120) \<and>
   computeBoundingBox
     \<lparr>center = \<lparr>latitude = Fin 120, longitude = Fin 0\<rparr>, radiusKm = Fin 25\<rparr> =
    \<lparr>minLatitude = Fin (- 90), maxLatitude = Fin 90,
     minLongitude = Fin (- 180), maxLongitude = Fin 180\<rparr>"
  using invalid_center_fallback [of "\<lparr>center = \<lparr>latitude = Fin 120, longitude = Fin 0\<rparr>,
    radiusKm = Fin 25\<rparr>"]
  by simp


text \<open>
  C6. Pole-proximity rule: for a valid center the returned latitudes are the clamped
  extremes, and when the clamped minimum is -90 or the clamped maximum is 90 the returned
  longitudes are exactly -180 and 180. For the center (89.5, 45) and a radius of 100 km
  the maximum latitude is exactly 90.
\<close>

theorem pole_proximity:
  "(valid_coordinate (center p) \<longrightarrow>
      minLatitude (computeBoundingBox p) = clampedMinLatitude p \<and>
      maxLatitude (computeBoundingBox p) = clampedMaxLatitude p \<and>
      (clampedMinLatitude p = Fin (- 90) \<or> clampedMaxLatitude p = Fin 90 \<longrightarrow>
        minLongitude (computeBoundingBox p) = Fin (- 180) \<and>
        maxLongitude (computeBoundingBox p) = Fin 180)) \<and>
   maxLatitude (computeBoundingBox
     \<lparr>center = \<lparr>latitude = Fin 89.5, longitude = Fin 45\<rparr>, radiusKm = Fin 100\<rparr>) = Fin 90"
proof
  show "valid_coordinate (center p) \<longrightarrow>
      minLatitude (computeBoundingBox p) = clampedMinLatitude p \<and>
      maxLatitude (computeBoundingBox p) = clampedMaxLatitude p \<and>
      (clampedMinLatitude p = Fin (- 90) \<or> clampedMaxLatitude p = Fin 90 \<longrightarrow>
        minLongitude (computeBoundingBox p) = Fin (- 180) \<and>
        maxLongitude (computeBoundingBox p) = Fin 180)"
    by (auto simp: computeBoundingBox_def valid_coordinate_def isLatitudeInRange_iff
        isLongitudeInRange_iff Let_def js_ge_def MIN_LATITUDE_def MAX_LATITUDE_def
        MIN_LONGITUDE_def MAX_LONGITUDE_def)
  have "valid_coordinate (center
      \<lparr>center = \<lparr>latitude = Fin 89.5, longitude = Fin 45\<rparr>, radiusKm = Fin 100\<rparr>)"
    by (simp add: valid_coordinate_def)
  then show "maxLatitude (computeBoundingBox
     \<lparr>center = \<lparr>latitude = Fin 89.5, longitude = Fin 45\<rparr>, radiusKm = Fin 100\<rparr>) = Fin 90"
    using pole_example
    by (simp add: computeBoundingBox_def valid_coordinate_def isLatitudeInRange_iff
        isLongitudeInRange_iff Let_def js_ge_def MAX_LATITUDE_def)
qed

theorem pole_proximity_witness:
  "valid_coordinate \<lparr>latitude = Fin 89.5, longitude = Fin 45\<rparr> \<and>
   clampedMaxLatitude
     \<lparr>center = \<lparr>latitude = Fin 89.5, longitude = Fin 45\<rparr>, radiusKm = Fin 100\<rparr> = Fin 90 \<and>
   maxLatitude (computeBoundingBox
     \<lparr>center = \<lparr>latitude = Fin 89.5, longitude = Fin 45\<rparr>, radiusKm = Fin 100\<rparr>) = Fin 90 \<and>
   minLongitude (computeBoundingBox
     \<lparr>center = \<lparr>latitude = Fin 89.5, longitude = Fin 45\<rparr>, radiusKm = Fin 100\<rparr>) = Fin (- 180) \<and>
   maxLongitude (computeBoundingBox
     \<lparr>center = \<lparr>latitude = Fin 89.5, longitude = Fin 45\<rparr>, radiusKm = Fin 100\<rparr>) = Fin 180"
proof -
  have v: "valid_coordinate \<lparr>latitude = Fin 89.5, longitude = Fin 45\<rparr>"
    by (simp add: valid_coordinate_def)
  show ?thesis
    using v pole_example
      pole_proximity [of "\<lparr>center = \<lparr>latitude = Fin 89.5, longitude = Fin 45\<rparr>,
        radiusKm = Fin 100\<rparr>"]
    by simp
qed


text \<open>
  C10. Center containment: for a valid center and a radius other than NaN (zero, negative
  and infinite radii included) the returned box contains the center.
\<close>

theorem box_contains_center:
  assumes "valid_coordinate (center p)" "\<not> js_isNaN (radiusKm p)"
  shows "box_contains (computeBoundingBox p) (center p)"
proof -
  from assms(1) obtain lat lon where c: "latitude (center p) = Fin lat"
    "longitude (center p) = Fin lon" "- 90 \<le> lat" "lat \<le> 90" "- 180 \<le> lon" "lon \<le> 180"
    by (rule valid_coordinateE)
  from assms(2) have r: "radiusKm p \<noteq> NaN" by (simp add: not_nan_iff)
  from c r obtain lo hi west east where
    "computeBoundingBox p =
       \<lparr>minLatitude = Fin lo, maxLatitude = Fin hi,
        minLongitude = Fin west, maxLongitude = Fin east\<rparr>"
    "- 90 \<le> lo" "lo \<le> lat" "lat \<le> hi" "hi \<le> 90"
    "- 180 \<le> west" "west \<le> lon" "lon \<le> east" "east \<le> 180"
    by (rule box_valid_center)
  then show ?thesis using c(1,2) by (simp add: box_contains_def)
qed

theorem box_contains_center_witness:
  "valid_coordinate \<lparr>latitude = Fin 37.5665, longitude = Fin 126.978\<rparr> \<and>
   \<not> js_isNaN (Fin (- 5)) \<and>
   box_contains (computeBoundingBox
       \<lparr>center = \<lparr>latitude = Fin 37.5665, longitude = Fin 126.978\<rparr>, radiusKm = Fin (- 5)\<rparr>)
     \<lparr>latitude = Fin 37.5665, longitude = Fin 126.978\<rparr>"
proof -
  have v: "valid_coordinate \<lparr>latitude = Fin 37.5665, longitude = Fin 126.978\<rparr>"
    by (simp add: valid_coordinate_def)
  show ?thesis
    using v box_contains_center [of "\<lparr>center = \<lparr>latitude = Fin 37.5665,
      longitude = Fin 126.978\<rparr>, radiusKm = Fin (- 5)\<rparr>"]
    by simp
qed


end
